theory Spec2Isabelle
  imports Complex_Main
begin

section \<open>Values thrown by JavaScript code\<close>

text \<open>
  A JavaScript \<^verbatim>\<open>throw\<close> can raise any value. The source distinguishes objects of class
  \<^verbatim>\<open>Error\<close> (read through \<^verbatim>\<open>error.message\<close>), the four error classes imported from
  \<^verbatim>\<open>./errors\<close> (all subclasses of \<^verbatim>\<open>Error\<close>), and every other value (rendered with
  \<^verbatim>\<open>String(error)\<close>). The constructor records the class; the string is the message,
  or for a value that is no \<^verbatim>\<open>Error\<close> the text \<^verbatim>\<open>String(error)\<close> yields. \<open>TypeError\<close> is
  the class of the errors the language itself raises on a failed conversion. A symbol
  is kept apart with its description: \<^verbatim>\<open>String(symbol)\<close> renders it, a template literal
  does not. The values are those \<^verbatim>\<open>String\<close> can render: an object whose own conversion
  to a string throws is not among them.
\<close>

datatype js_error =
    Error string
  | TypeError string
  | RequestCancelledError string
  | ChatModelAuthError string
  | ChatModelBadRequestError string
  | ChatModelForbiddenError string
  | SymbolValue string
  | NonError string

text \<open>\<^verbatim>\<open>error instanceof Error ? error.message : String(error)\<close>\<close>

fun errorMsg :: "js_error \<Rightarrow> string" where
  "errorMsg (Error m) = m"
| "errorMsg (TypeError m) = m"
| "errorMsg (RequestCancelledError m) = m"
| "errorMsg (ChatModelAuthError m) = m"
| "errorMsg (ChatModelBadRequestError m) = m"
| "errorMsg (ChatModelForbiddenError m) = m"
| "errorMsg (SymbolValue d) = ''Symbol('' @ d @ '')''"
| "errorMsg (NonError s) = s"

text \<open>
  A template literal \<^verbatim>\<open>`... ${error}`\<close> converts the value with \<^verbatim>\<open>ToString\<close>, which
  throws a \<^verbatim>\<open>TypeError\<close> for a symbol: the value the interpolation throws, if any.
\<close>

fun interpolation_throws :: "js_error \<Rightarrow> js_error option" where
  "interpolation_throws (SymbolValue d) = Some (TypeError ''Cannot convert a Symbol value to a string'')"
| "interpolation_throws e = None"


section \<open>The MCP client (\<^verbatim>\<open>mcp/client.ts\<close>, \<^verbatim>\<open>mcp/types.ts\<close>)\<close>

subsection \<open>Data\<close>

text \<open>
  Objects of the MCP SDK (\<^verbatim>\<open>Client\<close>, \<^verbatim>\<open>SSEClientTransport\<close>) are opaque: the model
  keeps their identity only, a reference drawn from a counter, so that building a new
  object is visible as a new reference.
\<close>

type_synonym ref = nat

text \<open>\<^verbatim>\<open>Record<string, unknown>\<close>: argument names with their values, rendered as text.\<close>

type_synonym tool_args = "(string \<times> string) list"

text \<open>\<^verbatim>\<open>interface MCPToolResult { content: string; error?: string }\<close>\<close>

record MCPToolResult =
  content :: string
  error :: "string option"

text \<open>
  The private fields of \<^verbatim>\<open>class MCPClient\<close>; \<^verbatim>\<open>null\<close> is \<open>None\<close>.
\<close>

record MCPClient =
  client :: "ref option"
  transport :: "ref option"
  connected :: bool

text \<open>The field initialisers of the class: the state \<^verbatim>\<open>new MCPClient()\<close> creates.\<close>

definition new_MCPClient :: MCPClient where
  "new_MCPClient = \<lparr>client = None, transport = None, connected = False\<rparr>"

text \<open>
  What the code does to the SDK, in order: the constructors it runs and the methods it
  calls. The log makes "the tool call was never attempted" and "nothing was rebuilt"
  statable.
\<close>

datatype sdk_call =
    NewTransport ref
  | NewClient ref
  | SdkConnect ref ref
  | SdkCallTool ref string tool_args
  | SdkClose ref

record sdk_world =
  nextRef :: ref
  sdkCalls :: "sdk_call list"

definition emit_call :: "sdk_call \<Rightarrow> sdk_world \<Rightarrow> sdk_world" where
  "emit_call ev w = w\<lparr>sdkCalls := sdkCalls w @ [ev]\<rparr>"

definition alloc :: "sdk_world \<Rightarrow> ref \<times> sdk_world" where
  "alloc w = (nextRef w, w\<lparr>nextRef := Suc (nextRef w)\<rparr>)"

subsection \<open>\<^verbatim>\<open>connect\<close>\<close>

text \<open>
  What the SDK does during one run of the \<^verbatim>\<open>try\<close> block of \<^verbatim>\<open>connect\<close> (lines 22 to
  40): either constructor may throw, \<^verbatim>\<open>client.connect\<close> may reject, or the connection is
  made. The logger's methods have no effect on the state and do not throw; building
  the message they are given can throw, and the handlers below say where.
\<close>

datatype connect_env =
    TransportCtorThrows js_error
  | ClientCtorThrows js_error
  | ClientConnectRejects js_error
  | ClientConnectResolves

text \<open>The value thrown during the connection attempt, if any.\<close>

fun thrown_by :: "connect_env \<Rightarrow> js_error option" where
  "thrown_by (TransportCtorThrows e) = Some e"
| "thrown_by (ClientCtorThrows e) = Some e"
| "thrown_by (ClientConnectRejects e) = Some e"
| "thrown_by ClientConnectResolves = None"

text \<open>The \<^verbatim>\<open>try\<close> block, lines 23 to 40. \<open>Inl\<close> is a throw that reaches the \<^verbatim>\<open>catch\<close>.\<close>

fun connect_try :: "connect_env \<Rightarrow> MCPClient \<Rightarrow> sdk_world \<Rightarrow> (js_error + bool) \<times> MCPClient \<times> sdk_world" where
  "connect_try (TransportCtorThrows e) c w = (Inl e, c, w)"
| "connect_try (ClientCtorThrows e) c w =
     (let (t, w1) = alloc w;
          c1 = c\<lparr>transport := Some t\<rparr>
      in (Inl e, c1, emit_call (NewTransport t) w1))"
| "connect_try (ClientConnectRejects e) c w =
     (let (t, w1) = alloc w;
          c1 = c\<lparr>transport := Some t\<rparr>;
          (k, w2) = alloc (emit_call (NewTransport t) w1);
          c2 = c1\<lparr>client := Some k\<rparr>
      in (Inl e, c2, emit_call (SdkConnect k t) (emit_call (NewClient k) w2)))"
| "connect_try ClientConnectResolves c w =
     (let (t, w1) = alloc w;
          c1 = c\<lparr>transport := Some t\<rparr>;
          (k, w2) = alloc (emit_call (NewTransport t) w1);
          c2 = c1\<lparr>client := Some k\<rparr>
      in (Inr True, c2\<lparr>connected := True\<rparr>,
          emit_call (SdkConnect k t) (emit_call (NewClient k) w2)))"

text \<open>
  The \<^verbatim>\<open>catch\<close> block of \<^verbatim>\<open>connect\<close>, lines 41 to 45, for the thrown value \<open>e\<close>. Line 42
  interpolates \<open>e\<close> into the log message before line 43 assigns \<^verbatim>\<open>connected\<close>: when the
  interpolation throws, the handler is left there and \<^verbatim>\<open>connect\<close> rejects (\<open>Inl\<close>).
\<close>

definition connect_catch :: "js_error \<Rightarrow> MCPClient \<Rightarrow> sdk_world \<Rightarrow> (js_error + bool) \<times> MCPClient \<times> sdk_world" where
  "connect_catch e c w =
     (case interpolation_throws e of
        Some t \<Rightarrow> (Inl t, c, w)
      | None \<Rightarrow> (Inr False, c\<lparr>connected := False\<rparr>, w))"

text \<open>
  \<^verbatim>\<open>async connect(): Promise<boolean>\<close>, lines 19 to 46: \<open>Inr\<close> is the value the promise
  resolves to, \<open>Inl\<close> the value it rejects with.
\<close>

definition connect :: "connect_env \<Rightarrow> MCPClient \<Rightarrow> sdk_world \<Rightarrow> (js_error + bool) \<times> MCPClient \<times> sdk_world" where
  "connect env c w =
     (if connected c then (Inr True, c, w)
      else (case connect_try env c w of
              (Inl e, c', w') \<Rightarrow> connect_catch e c' w'
            | (Inr b, c', w') \<Rightarrow> (Inr b, c', w')))"

subsection \<open>\<^verbatim>\<open>callTool\<close>\<close>

text \<open>One element of \<^verbatim>\<open>result.content\<close>: its \<^verbatim>\<open>type\<close> and its \<^verbatim>\<open>text\<close>.\<close>

record content_item =
  item_type :: string
  item_text :: string

text \<open>
  What \<^verbatim>\<open>this.client.callTool\<close> does (line 70): it rejects, or it resolves with a
  content array, or it resolves with a result whose content the expression of lines 76
  to 83 cannot map (no array, a \<^verbatim>\<open>null\<close> element), which throws the given value.
\<close>

datatype callTool_env =
    CallToolRejects js_error
  | CallToolResolves "content_item list"
  | CallToolUnmappable js_error

text \<open>\<^verbatim>\<open>Array.prototype.join\<close>\<close>

fun join :: "string \<Rightarrow> string list \<Rightarrow> string" where
  "join sep [] = []"
| "join sep [x] = x"
| "join sep (x # y # ys) = x @ sep @ join sep (y # ys)"

text \<open>Lines 76 to 83: the text of the \<^verbatim>\<open>text\<close> items, the empty string for the others.\<close>

definition extract_text :: "content_item list \<Rightarrow> string" where
  "extract_text items =
     join [CHR 0x0A] (map (\<lambda>item. if item_type item = ''text'' then item_text item else []) items)"

text \<open>The \<^verbatim>\<open>try\<close> block of \<^verbatim>\<open>callTool\<close>, lines 64 to 89.\<close>

definition callTool_try ::
  "string \<Rightarrow> tool_args \<Rightarrow> callTool_env \<Rightarrow> MCPClient \<Rightarrow> sdk_world \<Rightarrow> (js_error + MCPToolResult) \<times> sdk_world" where
  "callTool_try name args env c w =
     (case client c of
        None \<Rightarrow> (Inl (Error ''MCP client not initialized''), w)
      | Some k \<Rightarrow>
          (let w1 = emit_call (SdkCallTool k name args) w
           in (case env of
                 CallToolRejects e \<Rightarrow> (Inl e, w1)
               | CallToolUnmappable e \<Rightarrow> (Inl e, w1)
               | CallToolResolves items \<Rightarrow>
                   (Inr \<lparr>content = extract_text items, error = None\<rparr>, w1))))"

text \<open>
  Lines 63 to 98: the \<^verbatim>\<open>try\<close> block with its \<^verbatim>\<open>catch\<close>. The handler renders the thrown
  value with \<^verbatim>\<open>error.message\<close> or \<^verbatim>\<open>String(error)\<close> (line 91) and interpolates that string
  (line 92).
\<close>

definition callTool_guarded ::
  "string \<Rightarrow> tool_args \<Rightarrow> callTool_env \<Rightarrow> MCPClient \<Rightarrow> sdk_world \<Rightarrow> (js_error + MCPToolResult) \<times> MCPClient \<times> sdk_world" where
  "callTool_guarded name args env c w =
     (case callTool_try name args env c w of
        (Inl e, w') \<Rightarrow> (Inr \<lparr>content = [], error = Some (errorMsg e)\<rparr>, c, w')
      | (Inr r, w') \<Rightarrow> (Inr r, c, w'))"

text \<open>
  \<^verbatim>\<open>async callTool(name, args): Promise<MCPToolResult>\<close>, lines 51 to 99. The call of
  \<^verbatim>\<open>this.connect()\<close> stands outside the \<^verbatim>\<open>try\<close>: a rejection of it would reject
  \<^verbatim>\<open>callTool\<close> (\<open>Inl\<close>). \<open>cenv\<close> is read only when a connection is attempted, \<open>tenv\<close>
  only when the tool call is.
\<close>

definition callTool ::
  "string \<Rightarrow> tool_args \<Rightarrow> connect_env \<Rightarrow> callTool_env \<Rightarrow> MCPClient \<Rightarrow> sdk_world \<Rightarrow> (js_error + MCPToolResult) \<times> MCPClient \<times> sdk_world" where
  "callTool name args cenv tenv c w =
     (if \<not> connected c then
        (case connect cenv c w of
           (Inl e, c', w') \<Rightarrow> (Inl e, c', w')
         | (Inr success, c', w') \<Rightarrow>
             if \<not> success then
               (Inr \<lparr>content = [], error = Some ''MCP server not available''\<rparr>, c', w')
             else callTool_guarded name args tenv c' w')
      else callTool_guarded name args tenv c w)"

text \<open>\<^verbatim>\<open>isConnected(): boolean\<close>\<close>

definition isConnected :: "MCPClient \<Rightarrow> bool" where
  "isConnected c = connected c"

text \<open>What \<^verbatim>\<open>this.client.close()\<close> does (line 114).\<close>

datatype close_env = CloseResolves | CloseRejects js_error

text \<open>
  \<^verbatim>\<open>async disconnect(): Promise<void>\<close>, lines 111 to 122. The inner \<^verbatim>\<open>catch\<close> interpolates
  the thrown value into the log message (line 116): when that throws, \<^verbatim>\<open>disconnect\<close>
  rejects before lines 118 to 120 reset the fields.
\<close>

definition disconnect :: "close_env \<Rightarrow> MCPClient \<Rightarrow> sdk_world \<Rightarrow> (js_error + unit) \<times> MCPClient \<times> sdk_world" where
  "disconnect env c w =
     (case client c of
        None \<Rightarrow> (Inr (), c, w)
      | Some k \<Rightarrow>
          (let w1 = emit_call (SdkClose k) w;
               reset = (Inr (), c\<lparr>client := None, transport := None, connected := False\<rparr>, w1)
           in (case env of
                 CloseResolves \<Rightarrow> reset
               | CloseRejects e \<Rightarrow>
                   (case interpolation_throws e of
                      Some t \<Rightarrow> (Inl t, c, w1)
                    | None \<Rightarrow> reset))))"

subsection \<open>The singleton accessor\<close>

text \<open>
  The module variable \<^verbatim>\<open>mcpClientInstance\<close> (line 126) and the \<^verbatim>\<open>MCPClient\<close> objects
  allocated so far. The store makes the identity of the returned object statable: two
  calls return the same object when they return the same reference.
\<close>

record module_state =
  mcpClientInstance :: "ref option"
  objects :: "ref \<Rightarrow> MCPClient option"
  nextObj :: ref

text \<open>The module as loaded: \<^verbatim>\<open>let mcpClientInstance: MCPClient | null = null\<close>.\<close>

definition module_init :: module_state where
  "module_init = \<lparr>mcpClientInstance = None, objects = (\<lambda>_. None), nextObj = 0\<rparr>"

text \<open>\<^verbatim>\<open>export function getMCPClient(): MCPClient\<close>, lines 128 to 133.\<close>

definition getMCPClient :: "module_state \<Rightarrow> ref \<times> module_state" where
  "getMCPClient m =
     (case mcpClientInstance m of
        None \<Rightarrow>
          (let r = nextObj m
           in (r, m\<lparr>mcpClientInstance := Some r,
                     objects := (objects m)(r \<mapsto> new_MCPClient),
                     nextObj := Suc r\<rparr>))
      | Some r \<Rightarrow> (r, m))"

text \<open>\<open>n\<close> calls in a row: the references returned, and the module state left.\<close>

fun getMCPClient_times :: "nat \<Rightarrow> module_state \<Rightarrow> ref list \<times> module_state" where
  "getMCPClient_times 0 m = ([], m)"
| "getMCPClient_times (Suc n) m =
     (let (r, m1) = getMCPClient m;
          (rs, m2) = getMCPClient_times n m1
      in (r # rs, m2))"

subsection \<open>The states a client can be in\<close>

text \<open>
  The states of one \<^verbatim>\<open>MCPClient\<close> object after any sequence of method calls, each run
  to its end before the next starts, whatever the SDK answers.
\<close>

inductive reachable :: "MCPClient \<Rightarrow> bool" where
  r_new: "reachable new_MCPClient"
| r_connect: "reachable c \<Longrightarrow> connect env c w = (res, c', w') \<Longrightarrow> reachable c'"
| r_callTool: "reachable c \<Longrightarrow> callTool name args cenv tenv c w = (res, c', w') \<Longrightarrow> reachable c'"
| r_disconnect: "reachable c \<Longrightarrow> disconnect b c w = (res, c', w') \<Longrightarrow> reachable c'"


section \<open>Agents (\<^verbatim>\<open>EXAMPLE_DEFI_AGENT.md\<close>)\<close>

subsection \<open>Data\<close>

text \<open>The members of \<^verbatim>\<open>Actors\<close> and \<^verbatim>\<open>ExecutionState\<close> the documents name.\<close>

datatype Actors = SYSTEM | USER | PLANNER | NAVIGATOR

datatype ExecutionState =
    TASK_START | TASK_OK | TASK_FAIL | TASK_CANCEL | TASK_PAUSE
  | STEP_START | STEP_OK | STEP_FAIL

text \<open>The zod enums of \<^verbatim>\<open>defiAnalysisSchema\<close> and the text a template literal shows for them.\<close>

datatype protocol_type = DEX | Lending | Staking | Bridge | Yield | Other

datatype risk_level = Low | Medium | High | Critical

datatype audit_status = Audited | Unaudited | Unknown

datatype recommended_action = Proceed | ProceedWithCaution | DoNotProceed

fun risk_level_text :: "risk_level \<Rightarrow> string" where
  "risk_level_text Low = ''Low''"
| "risk_level_text Medium = ''Medium''"
| "risk_level_text High = ''High''"
| "risk_level_text Critical = ''Critical''"

fun recommended_action_text :: "recommended_action \<Rightarrow> string" where
  "recommended_action_text Proceed = ''Proceed''"
| "recommended_action_text ProceedWithCaution = ''Proceed with Caution''"
| "recommended_action_text DoNotProceed = ''Do Not Proceed''"

text \<open>\<^verbatim>\<open>type DeFiAnalysis = z.infer<typeof defiAnalysisSchema>\<close>\<close>

record DeFiAnalysis =
  protocol_name :: string
  protocol_type :: protocol_type
  risk_level :: risk_level
  risk_factors :: "string list"
  apr_apy :: "string option"
  tvl :: "string option"
  audit_status :: audit_status
  audit_firms :: "string list"
  recommended_action :: recommended_action
  confidence :: rat
  explanation :: string
  additional_checks :: "string list"

text \<open>
  The object literal pushed on \<^verbatim>\<open>context.actionResults\<close> (lines 120 to 127);
  \<^verbatim>\<open>null\<close> is \<open>None\<close>.
\<close>

record ActionResult =
  isDone :: bool
  success :: bool
  extractedContent :: "string option"
  error :: "string option"
  includeInMemory :: bool
  interactedElement :: "nat option"

text \<open>
  \<^verbatim>\<open>AgentOutput<T>\<close> as the code uses it: \<^verbatim>\<open>{ id: this.id }\<close> is accepted as a value of
  the type (line 65), so \<^verbatim>\<open>result\<close> and \<^verbatim>\<open>error\<close> are both optional; an absent field
  is \<open>None\<close>. The field \<^verbatim>\<open>id\<close> is \<open>id_out\<close> here.
\<close>

record 'a AgentOutput =
  id_out :: string
  result :: "'a option"
  error :: "string option"

text \<open>Exactly one of \<^verbatim>\<open>result\<close> and \<^verbatim>\<open>error\<close> is set.\<close>

definition result_xor_error :: "'a AgentOutput \<Rightarrow> bool" where
  "result_xor_error out = ((result out = None) \<noteq> (error out = None))"

text \<open>The messages of the conversation, by class.\<close>

datatype message = SystemMessage string | HumanMessage string | AIMessage string

text \<open>What \<^verbatim>\<open>browserContext.getState(false)\<close> gives, as far as \<^verbatim>\<open>execute\<close> reads it.\<close>

record BrowserState =
  url :: string
  title :: string
  visibleText :: string

text \<open>The part of \<^verbatim>\<open>AgentContext\<close> that \<^verbatim>\<open>execute\<close> writes.\<close>

record AgentContext =
  events :: "(Actors \<times> ExecutionState \<times> string) list"
  actionResults :: "ActionResult list"

text \<open>
  \<^verbatim>\<open>context.emitEvent(actor, state, details)\<close>: the event publisher is one-way; the model
  records the event and goes on.
\<close>

definition emitEvent :: "Actors \<Rightarrow> ExecutionState \<Rightarrow> string \<Rightarrow> AgentContext \<Rightarrow> AgentContext" where
  "emitEvent actor st details ctx = ctx\<lparr>events := events ctx @ [(actor, st, details)]\<rparr>"

text \<open>
  What surrounds one run of \<^verbatim>\<open>execute\<close>: the outcome of \<^verbatim>\<open>getState\<close> (with
  \<^verbatim>\<open>getVisibleText\<close>), the message history and system prompt, the answer of
  \<^verbatim>\<open>this.invoke\<close> to the messages it is given (a model output, \<^verbatim>\<open>null\<close>, or a throw) and
  \<^verbatim>\<open>JSON.stringify\<close>.
\<close>

record defi_env =
  getState :: "js_error + BrowserState"
  getMessages :: "message list"
  getSystemMessage :: message
  invoke :: "message list \<Rightarrow> js_error + DeFiAnalysis option"
  stringify :: "DeFiAnalysis \<Rightarrow> string"

text \<open>
  The predicates imported from \<^verbatim>\<open>./errors\<close>, which is not part of the sources at hand:
  they are parameters of the model.
\<close>

record error_predicates =
  isAbortedError :: "js_error \<Rightarrow> bool"
  isAuthenticationError :: "js_error \<Rightarrow> bool"
  isBadRequestError :: "js_error \<Rightarrow> bool"
  isForbiddenError :: "js_error \<Rightarrow> bool"

subsection \<open>\<^verbatim>\<open>DeFiAgent.execute\<close>\<close>

text \<open>Lines 65 to 67: \<^verbatim>\<open>const agentOutput: AgentOutput<DeFiAnalysis> = { id: this.id }\<close>\<close>

definition new_agentOutput :: "string \<Rightarrow> 'a AgentOutput" where
  "new_agentOutput i = \<lparr>id_out = i, result = None, error = None\<rparr>"

text \<open>\<^verbatim>\<open>messages.slice(-n)\<close>\<close>

definition slice_last :: "nat \<Rightarrow> 'a list \<Rightarrow> 'a list" where
  "slice_last n xs = drop (length xs - n) xs"

text \<open>The template literal of lines 82 to 92.\<close>

definition analysisQuery :: "BrowserState \<Rightarrow> string" where
  "analysisQuery bs =
     ''Analyze this DeFi protocol page:\<newline>\<newline>URL: '' @ url bs @
     ''\<newline>Page Title: '' @ title bs @
     ''\<newline>\<newline>Page Content (first 5000 chars):\<newline>'' @ take 5000 (visibleText bs) @
     ''\<newline>\<newline>Perform a comprehensive DeFi security and viability analysis.\<newline>'' @
     ''Extract key metrics if available.\<newline>'' @
     ''Identify any red flags or security concerns.''"

text \<open>
  The \<^verbatim>\<open>try\<close> block, lines 69 to 137. \<open>Inl\<close> is a throw that reaches the \<^verbatim>\<open>catch\<close>,
  \<open>Inr\<close> the value of \<^verbatim>\<open>return agentOutput\<close>.
\<close>

definition execute_try ::
  "DeFiAnalysis AgentOutput \<Rightarrow> defi_env \<Rightarrow> AgentContext \<Rightarrow> (js_error + DeFiAnalysis AgentOutput) \<times> AgentContext" where
  "execute_try agentOutput env ctx =
     (let ctx1 = emitEvent SYSTEM STEP_START ''DeFi Agent analyzing protocol...'' ctx
      in (case getState env of
            Inl e \<Rightarrow> (Inl e, ctx1)
          | Inr browserState \<Rightarrow>
              (let inputMessages =
                     [getSystemMessage env] @ slice_last 5 (getMessages env) @
                     [HumanMessage (analysisQuery browserState)]
               in (case invoke env inputMessages of
                     Inl e \<Rightarrow> (Inl e, ctx1)
                   | Inr None \<Rightarrow> (Inl (Error ''Failed to validate DeFi analysis output''), ctx1)
                   | Inr (Some modelOutput) \<Rightarrow>
                       (let ctx2 = ctx1\<lparr>actionResults := actionResults ctx1 @
                                     [\<lparr>isDone = False, success = True,
                                       extractedContent = Some (stringify env modelOutput),
                                       ActionResult.error = None, includeInMemory = True,
                                       interactedElement = None\<rparr>]\<rparr>;
                            ctx3 = emitEvent SYSTEM STEP_OK
                                     (''DeFi Analysis: '' @ protocol_name modelOutput @
                                      '' - Risk: '' @ risk_level_text (risk_level modelOutput) @
                                      '' - '' @ recommended_action_text (recommended_action modelOutput))
                                     ctx2
                        in (Inr (agentOutput\<lparr>result := Some modelOutput\<rparr>), ctx3))))))"

text \<open>
  The \<^verbatim>\<open>catch\<close> block, lines 138 to 164, for the thrown value \<open>e\<close>. \<open>Inl\<close> is a throw
  that leaves \<^verbatim>\<open>execute\<close>.
\<close>

definition execute_catch ::
  "error_predicates \<Rightarrow> DeFiAnalysis AgentOutput \<Rightarrow> js_error \<Rightarrow> AgentContext \<Rightarrow> (js_error + DeFiAnalysis AgentOutput) \<times> AgentContext" where
  "execute_catch errs agentOutput e ctx =
     (if isAbortedError errs e then
        (Inl (RequestCancelledError ''DeFi analysis was cancelled''), ctx)
      else if isAuthenticationError errs e then
        (Inl (ChatModelAuthError ''Authentication failed for DeFi analysis''), ctx)
      else if isBadRequestError errs e then
        (Inl (ChatModelBadRequestError ''Invalid request for DeFi analysis''), ctx)
      else if isForbiddenError errs e then
        (Inl (ChatModelForbiddenError ''Access forbidden for DeFi analysis''), ctx)
      else
        (let ctx1 = emitEvent SYSTEM STEP_FAIL (''DeFi analysis failed: '' @ errorMsg e) ctx
         in (Inr (agentOutput\<lparr>error := Some (errorMsg e)\<rparr>), ctx1)))"

text \<open>
  \<^verbatim>\<open>async execute(): Promise<AgentOutput<DeFiAnalysis>>\<close>, lines 64 to 165; \<open>this_id\<close>
  is \<^verbatim>\<open>this.id\<close>.
\<close>

definition execute ::
  "string \<Rightarrow> error_predicates \<Rightarrow> defi_env \<Rightarrow> AgentContext \<Rightarrow> (js_error + DeFiAnalysis AgentOutput) \<times> AgentContext" where
  "execute this_id errs env ctx =
     (let agentOutput = new_agentOutput this_id
      in (case execute_try agentOutput env ctx of
            (Inr out, ctx') \<Rightarrow> (Inr out, ctx')
          | (Inl e, ctx') \<Rightarrow> execute_catch errs agentOutput e ctx'))"


subsection \<open>Sample surroundings\<close>

text \<open>Concrete values on which the theorems about \<^verbatim>\<open>execute\<close> are instantiated.\<close>

definition example_analysis :: DeFiAnalysis where
  "example_analysis =
     \<lparr>protocol_name = ''Aave'', protocol_type = Lending, risk_level = Low,
      risk_factors = [], apr_apy = None, tvl = Some ''1B'', audit_status = Audited,
      audit_firms = [''OpenZeppelin''], recommended_action = Proceed, confidence = 9 / 10,
      explanation = ''ok'', additional_checks = []\<rparr>"

definition example_env :: "(js_error + DeFiAnalysis option) \<Rightarrow> defi_env" where
  "example_env answer =
     \<lparr>getState = Inr \<lparr>url = ''https://app.aave.com'', title = ''Aave'', visibleText = ''Supply''\<rparr>,
      getMessages = [], getSystemMessage = SystemMessage ''You are an expert'',
      invoke = (\<lambda>_. answer), stringify = (\<lambda>a. protocol_name a)\<rparr>"

definition example_errors :: error_predicates where
  "example_errors =
     \<lparr>isAbortedError = (\<lambda>e. e = Error ''AbortError''),
      isAuthenticationError = (\<lambda>e. e = Error ''401''),
      isBadRequestError = (\<lambda>e. e = Error ''400''),
      isForbiddenError = (\<lambda>e. e = Error ''403'')\<rparr>"


section \<open>The Executor's step loop (\<^verbatim>\<open>AGENT_ARCHITECTURE_GUIDE.md\<close>, lines 112 to 131)\<close>

subsection \<open>Data\<close>

text \<open>The Planner's output schema (lines 254 to 262 of the guide).\<close>

record PlannerOutput =
  observation :: string
  challenges :: string
  "done" :: bool
  next_steps :: string
  final_answer :: string
  reasoning :: string
  web_task :: bool

text \<open>
  What surrounds the loop. Each of \<^verbatim>\<open>shouldStop\<close>, \<^verbatim>\<open>runPlanner\<close> and \<^verbatim>\<open>navigate\<close> is
  awaited at most once in an iteration, so its outcome is given per value of \<^verbatim>\<open>step\<close>;
  the two agent runs may throw (\<open>Inl\<close>). The bodies of these methods and of
  \<^verbatim>\<open>checkTaskCompletion\<close> are not part of the sources at hand: they are parameters, and
  every awaited call is taken to settle.
\<close>

record executor_env =
  shouldStop :: "nat \<Rightarrow> bool"
  runPlanner :: "nat \<Rightarrow> js_error + PlannerOutput AgentOutput"
  checkTaskCompletion :: "PlannerOutput AgentOutput \<Rightarrow> bool"
  navigate :: "nat \<Rightarrow> js_error + bool"

text \<open>The agent runs the loop starts, with the value of \<^verbatim>\<open>step\<close> at the call.\<close>

datatype agent_call = CallPlanner nat | CallNavigator nat

text \<open>The variables of the loop other than \<^verbatim>\<open>step\<close>, and the log of agent runs.\<close>

record loop_vars =
  latestPlanOutput :: "PlannerOutput AgentOutput option"
  navigatorDone :: bool
  calls :: "agent_call list"

text \<open>
  \<^verbatim>\<open>let latestPlanOutput = null; let navigatorDone = false;\<close> (the declarations before
  the loop, \<^verbatim>\<open>EXAMPLE_DEFI_AGENT.md\<close> lines 347 to 349).
\<close>

definition loop_init :: loop_vars where
  "loop_init = \<lparr>latestPlanOutput = None, navigatorDone = False, calls = []\<rparr>"

text \<open>How the loop is left: by one of its two \<^verbatim>\<open>break\<close>s, by its condition, or by a throw.\<close>

datatype exit_reason = Stopped | PlannerComplete | Exhausted | Threw js_error

datatype flow = Break exit_reason loop_vars | Continue loop_vars

subsection \<open>The loop\<close>

text \<open>
  \<^verbatim>\<open>step % planningInterval === 0 || navigatorDone\<close> (line 117). In JavaScript
  \<^verbatim>\<open>step % 0\<close> is \<^verbatim>\<open>NaN\<close>, which is not \<^verbatim>\<open>=== 0\<close>; in HOL \<open>step mod 0 = step\<close>, so the
  case is written out.
\<close>

definition planning_gate :: "nat \<Rightarrow> nat \<Rightarrow> bool \<Rightarrow> bool" where
  "planning_gate planningInterval step navDone =
     ((planningInterval \<noteq> 0 \<and> step mod planningInterval = 0) \<or> navDone)"

text \<open>Lines 116 to 122: the Planner's part of an iteration.\<close>

definition plan_phase :: "executor_env \<Rightarrow> nat \<Rightarrow> nat \<Rightarrow> loop_vars \<Rightarrow> flow" where
  "plan_phase E planningInterval step v =
     (if planning_gate planningInterval step (navigatorDone v) then
        (case runPlanner E step of
           Inl e \<Rightarrow> Break (Threw e) (v\<lparr>calls := calls v @ [CallPlanner step]\<rparr>)
         | Inr out \<Rightarrow>
             (let v1 = v\<lparr>latestPlanOutput := Some out, calls := calls v @ [CallPlanner step]\<rparr>
              in if checkTaskCompletion E out then Break PlannerComplete v1 else Continue v1))
      else Continue v)"

text \<open>Lines 124 to 130: the Navigator's part of an iteration.\<close>

definition navigate_phase :: "executor_env \<Rightarrow> nat \<Rightarrow> loop_vars \<Rightarrow> flow" where
  "navigate_phase E step v =
     (case navigate E step of
        Inl e \<Rightarrow> Break (Threw e) (v\<lparr>calls := calls v @ [CallNavigator step]\<rparr>)
      | Inr d \<Rightarrow> Continue (v\<lparr>navigatorDone := d, calls := calls v @ [CallNavigator step]\<rparr>))"

text \<open>The body of the loop, lines 113 to 130.\<close>

definition iteration :: "executor_env \<Rightarrow> nat \<Rightarrow> nat \<Rightarrow> loop_vars \<Rightarrow> flow" where
  "iteration E planningInterval step v =
     (if shouldStop E step then Break Stopped v
      else (case plan_phase E planningInterval step v of
              Break x v1 \<Rightarrow> Break x v1
            | Continue v1 \<Rightarrow> navigate_phase E step v1))"

text \<open>
  \<^verbatim>\<open>for (step = 0; step < maxSteps; step++) { ... }\<close>, from the current value of
  \<^verbatim>\<open>step\<close>: the result is how the loop was left, the final \<^verbatim>\<open>step\<close> and the variables.
\<close>

function step_loop :: "executor_env \<Rightarrow> nat \<Rightarrow> nat \<Rightarrow> nat \<Rightarrow> loop_vars \<Rightarrow> exit_reason \<times> nat \<times> loop_vars" where
  "step_loop E maxSteps planningInterval step v =
     (if step < maxSteps then
        (case iteration E planningInterval step v of
           Break x v1 \<Rightarrow> (x, step, v1)
         | Continue v1 \<Rightarrow> step_loop E maxSteps planningInterval (Suc step) v1)
      else (Exhausted, step, v))"
  by pat_completeness auto
termination
  by (relation "measure (\<lambda>(E, maxSteps, planningInterval, step, v). maxSteps - step)") auto

declare step_loop.simps [simp del]

text \<open>The loop from \<^verbatim>\<open>step = 0\<close>.\<close>

definition run_loop :: "executor_env \<Rightarrow> nat \<Rightarrow> nat \<Rightarrow> exit_reason \<times> nat \<times> loop_vars" where
  "run_loop E maxSteps planningInterval = step_loop E maxSteps planningInterval 0 loop_init"

subsection \<open>What the sources at hand leave out\<close>

text \<open>
  Modelled from the spec: the body of \<^verbatim>\<open>Executor.checkTaskCompletion\<close>, which the guide
  calls and does not show. Section 4.1: "If the Planner signals \<^verbatim>\<open>done = true\<close>: [...]
  emit \<^verbatim>\<open>TASK_OK\<close> with the Planner's final answer, and exit the loop"; section 4.2: the
  Planner's \<^verbatim>\<open>done\<close> is the "sole success signal consumed by Executor".
\<close>

definition checkTaskCompletion_spec :: "PlannerOutput AgentOutput \<Rightarrow> bool" where
  "checkTaskCompletion_spec out = (case result out of None \<Rightarrow> False | Some r \<Rightarrow> done r)"

text \<open>The terminal states of section 4.1 of the spec, a failure with its condition.\<close>

datatype failure = StepBudgetExceeded | Uncaught js_error

datatype terminal_state = Completed | Failed failure | Cancelled

text \<open>
  Modelled from the spec: what \<^verbatim>\<open>Executor.execute\<close> does once the loop is left, and its
  top-level error handler; the documents elide both ("rest of execute method",
  "existing error handling"). Section 4.1: a stop seen at the cancellation check leads
  to \<^verbatim>\<open>Cancelled\<close>; a Planner-signalled completion emits \<^verbatim>\<open>TASK_OK\<close>; an uncaught error
  of an agent invocation leads to \<^verbatim>\<open>Failed\<close> with \<^verbatim>\<open>TASK_FAIL\<close>. Section 7:
  \<^verbatim>\<open>RequestCancelledError\<close> leads to \<^verbatim>\<open>Cancelled\<close>, not \<^verbatim>\<open>Failed\<close>, with a different
  terminal event; \<^verbatim>\<open>StepBudgetExceeded\<close> is "loop exhausted without reaching a
  Planner-signalled completion".
\<close>

fun on_fatal :: "js_error \<Rightarrow> terminal_state \<times> ExecutionState" where
  "on_fatal (RequestCancelledError m) = (Cancelled, TASK_CANCEL)"
| "on_fatal e = (Failed (Uncaught e), TASK_FAIL)"

fun finish :: "exit_reason \<Rightarrow> terminal_state \<times> ExecutionState" where
  "finish Stopped = (Cancelled, TASK_CANCEL)"
| "finish PlannerComplete = (Completed, TASK_OK)"
| "finish Exhausted = (Failed StepBudgetExceeded, TASK_FAIL)"
| "finish (Threw e) = on_fatal e"

text \<open>The terminal state and event of a task, from its step loop.\<close>

definition task_outcome :: "executor_env \<Rightarrow> nat \<Rightarrow> nat \<Rightarrow> terminal_state \<times> ExecutionState" where
  "task_outcome E maxSteps planningInterval = finish (fst (run_loop E maxSteps planningInterval))"


subsection \<open>The loop read off its surroundings\<close>

text \<open>
  The value of \<^verbatim>\<open>navigatorDone\<close> at the start of iteration \<open>s\<close>: \<^verbatim>\<open>false\<close> at first,
  then what \<^verbatim>\<open>navigate\<close> returned in the iteration before.
\<close>

fun prior_navigator_done :: "executor_env \<Rightarrow> nat \<Rightarrow> bool" where
  "prior_navigator_done E 0 = False"
| "prior_navigator_done E (Suc s) = (navigate E s = Inr True)"

text \<open>The planning gate of iteration \<open>s\<close>.\<close>

definition gate_at :: "executor_env \<Rightarrow> nat \<Rightarrow> nat \<Rightarrow> bool" where
  "gate_at E planningInterval s = planning_gate planningInterval s (prior_navigator_done E s)"

text \<open>The Planner returns at step \<open>s\<close> and \<^verbatim>\<open>checkTaskCompletion\<close> is false of its output.\<close>

definition planner_lets_on :: "executor_env \<Rightarrow> nat \<Rightarrow> bool" where
  "planner_lets_on E s = (case runPlanner E s of Inl e \<Rightarrow> False | Inr out \<Rightarrow> \<not> checkTaskCompletion E out)"

text \<open>The Navigator returns at step \<open>s\<close>.\<close>

definition navigator_returns :: "executor_env \<Rightarrow> nat \<Rightarrow> bool" where
  "navigator_returns E s = (case navigate E s of Inl e \<Rightarrow> False | Inr d \<Rightarrow> True)"

text \<open>Iteration \<open>s\<close> reaches its end: no \<^verbatim>\<open>break\<close>, no throw.\<close>

definition iteration_continues :: "executor_env \<Rightarrow> nat \<Rightarrow> nat \<Rightarrow> bool" where
  "iteration_continues E planningInterval s =
     (\<not> shouldStop E s \<and> (gate_at E planningInterval s \<longrightarrow> planner_lets_on E s) \<and> navigator_returns E s)"

text \<open>The agent runs of iteration \<open>s\<close>, when it starts with \<^verbatim>\<open>navigatorDone = nd\<close>.\<close>

definition iteration_calls :: "executor_env \<Rightarrow> nat \<Rightarrow> nat \<Rightarrow> bool \<Rightarrow> agent_call list" where
  "iteration_calls E k s nd =
     (if shouldStop E s then []
      else if planning_gate k s nd then
        (if planner_lets_on E s then [CallPlanner s, CallNavigator s] else [CallPlanner s])
      else [CallNavigator s])"

fun is_navigator_call :: "agent_call \<Rightarrow> bool" where
  "is_navigator_call (CallNavigator s) = True"
| "is_navigator_call (CallPlanner s) = False"

text \<open>The agent runs of the whole loop.\<close>

definition loop_calls :: "executor_env \<Rightarrow> nat \<Rightarrow> nat \<Rightarrow> agent_call list" where
  "loop_calls E maxSteps planningInterval = calls (snd (snd (run_loop E maxSteps planningInterval)))"

text \<open>The agent runs of the iterations \<open>lo\<close> to \<open>hi - 1\<close>.\<close>

definition expected_calls :: "executor_env \<Rightarrow> nat \<Rightarrow> nat \<Rightarrow> nat \<Rightarrow> agent_call list" where
  "expected_calls E k lo hi =
     concat (map (\<lambda>s. iteration_calls E k s (prior_navigator_done E s)) [lo..<hi])"

subsection \<open>Sample surroundings of the loop\<close>

text \<open>
  A Planner output with a given \<^verbatim>\<open>done\<close> flag, and surroundings in which stopping, the
  Planner's flag and the Navigator's result are given per step and nothing throws.
\<close>

definition example_plan :: "bool \<Rightarrow> PlannerOutput AgentOutput" where
  "example_plan d =
     \<lparr>id_out = ''planner'',
      result = Some \<lparr>observation = ''page loaded'', challenges = [], done = d,
                     next_steps = ''read the title'', final_answer = (if d then ''Example Domain'' else []),
                     reasoning = [], web_task = True\<rparr>,
      error = None\<rparr>"

definition example_executor_env :: "(nat \<Rightarrow> bool) \<Rightarrow> (nat \<Rightarrow> bool) \<Rightarrow> (nat \<Rightarrow> bool) \<Rightarrow> executor_env" where
  "example_executor_env stop planDone navDone =
     \<lparr>shouldStop = stop,
      runPlanner = (\<lambda>s. Inr (example_plan (planDone s))),
      checkTaskCompletion = checkTaskCompletion_spec,
      navigate = (\<lambda>s. Inr (navDone s))\<rparr>"

definition never :: "nat \<Rightarrow> bool" where
  "never s = False"

definition always :: "nat \<Rightarrow> bool" where
  "always s = True"

definition from_step :: "nat \<Rightarrow> nat \<Rightarrow> bool" where
  "from_step n s = (n \<le> s)"


section \<open>Properties of the MCP client\<close>

lemma interpolation_throws_cases:
  "interpolation_throws e = None \<or>
   (\<exists>d. e = SymbolValue d \<and>
        interpolation_throws e = Some (TypeError ''Cannot convert a Symbol value to a string''))"
  by (cases e) simp_all

text \<open>
  Claim C1 fails on the code. On a client that is not connected, let \<^verbatim>\<open>client.connect\<close>
  reject with a symbol. The \<^verbatim>\<open>catch\<close> of \<^verbatim>\<open>connect\<close> interpolates the value into its log
  message (line 42), which throws a \<^verbatim>\<open>TypeError\<close>; \<^verbatim>\<open>connect\<close> rejects, and since
  \<^verbatim>\<open>await this.connect()\<close> (line 54) stands outside the \<^verbatim>\<open>try\<close> of \<^verbatim>\<open>callTool\<close>,
  \<^verbatim>\<open>callTool\<close> rejects with it instead of resolving to an \<^verbatim>\<open>MCPToolResult\<close>.
\<close>

theorem callTool_rejects_on_symbol:
  "callTool ''get_protocol_tvl'' [(''protocol'', ''aave'')]
      (ClientConnectRejects (SymbolValue ''closed'')) (CallToolResolves [])
      new_MCPClient \<lparr>nextRef = 0, sdkCalls = []\<rparr>
   = (Inl (TypeError ''Cannot convert a Symbol value to a string''),
      \<lparr>client = Some 1, transport = Some 0, connected = False\<rparr>,
      \<lparr>nextRef = 2, sdkCalls = [NewTransport 0, NewClient 1, SdkConnect 1 0]\<rparr>)"
  by (simp add: callTool_def connect_def connect_catch_def alloc_def emit_call_def
        new_MCPClient_def eval_nat_numeral)

text \<open>
  The extent of the defect: \<^verbatim>\<open>callTool\<close> rejects exactly when it has to connect and the
  connection attempt throws a value the template literal of line 42 cannot render.
\<close>

lemma callTool_rejects_iff:
  "(\<exists>t c' w'. callTool name args cenv tenv c w = (Inl t, c', w')) \<longleftrightarrow>
   (\<not> connected c \<and> (\<exists>e t. thrown_by cenv = Some e \<and> interpolation_throws e = Some t))"
proof (cases cenv)
  case (TransportCtorThrows e)
  then show ?thesis
    using interpolation_throws_cases [of e]
    by (cases tenv; cases "client c")
       (auto simp: callTool_def callTool_guarded_def callTool_try_def connect_def
          connect_catch_def alloc_def emit_call_def Let_def)
next
  case (ClientCtorThrows e)
  then show ?thesis
    using interpolation_throws_cases [of e]
    by (cases tenv; cases "client c")
       (auto simp: callTool_def callTool_guarded_def callTool_try_def connect_def
          connect_catch_def alloc_def emit_call_def Let_def)
next
  case (ClientConnectRejects e)
  then show ?thesis
    using interpolation_throws_cases [of e]
    by (cases tenv; cases "client c")
       (auto simp: callTool_def callTool_guarded_def callTool_try_def connect_def
          connect_catch_def alloc_def emit_call_def Let_def)
next
  case ClientConnectResolves
  then show ?thesis
    by (cases tenv; cases "client c")
       (auto simp: callTool_def callTool_guarded_def callTool_try_def connect_def
          alloc_def emit_call_def Let_def)
qed

text \<open>
  Away from the defect the behaviour is the documented one: when the client is connected,
  or the value a failed connection attempt throws can be interpolated, \<^verbatim>\<open>callTool\<close>
  resolves, and each failure becomes the \<^verbatim>\<open>error\<close> field of the result.
\<close>

lemma callTool_resolves:
  assumes "connected c \<or> (\<forall>e. thrown_by cenv = Some e \<longrightarrow> interpolation_throws e = None)"
  shows "\<exists>r c' w'. callTool name args cenv tenv c w = (Inr r, c', w') \<and>
     (\<not> connected c \<and> cenv \<noteq> ClientConnectResolves \<longrightarrow>
        r = \<lparr>content = [], MCPToolResult.error = Some ''MCP server not available''\<rparr>) \<and>
     (connected c \<and> client c = None \<longrightarrow>
        r = \<lparr>content = [], MCPToolResult.error = Some ''MCP client not initialized''\<rparr>) \<and>
     ((connected c \<and> client c \<noteq> None) \<or> (\<not> connected c \<and> cenv = ClientConnectResolves) \<longrightarrow>
        (\<forall>e. tenv = CallToolRejects e \<or> tenv = CallToolUnmappable e \<longrightarrow>
               r = \<lparr>content = [], MCPToolResult.error = Some (errorMsg e)\<rparr>) \<and>
        (\<forall>items. tenv = CallToolResolves items \<longrightarrow>
               r = \<lparr>content = extract_text items, MCPToolResult.error = None\<rparr>))"
  using assms
  by (cases cenv; cases tenv; cases "client c")
     (auto simp: callTool_def callTool_guarded_def callTool_try_def connect_def connect_catch_def
        alloc_def emit_call_def Let_def)

text \<open>
  Claim C7 fails on the code, by the same defect. The client is not connected and the
  connection attempt fails with a symbol: \<^verbatim>\<open>connect\<close> rejects in its own \<^verbatim>\<open>catch\<close> (line 42)
  instead of resolving to \<^verbatim>\<open>false\<close>, and \<^verbatim>\<open>callTool\<close> rejects instead of returning
  \<^verbatim>\<open>{content: '', error: 'MCP server not available'}\<close>. The tool call is not attempted
  and \<^verbatim>\<open>connected\<close> stays false.
\<close>

theorem connect_rejects_on_symbol:
  "connect (ClientConnectRejects (SymbolValue ''ECONNREFUSED'')) new_MCPClient \<lparr>nextRef = 0, sdkCalls = []\<rparr>
     = (Inl (TypeError ''Cannot convert a Symbol value to a string''),
        \<lparr>client = Some 1, transport = Some 0, connected = False\<rparr>,
        \<lparr>nextRef = 2, sdkCalls = [NewTransport 0, NewClient 1, SdkConnect 1 0]\<rparr>) \<and>
   fst (callTool ''get_pool_apy'' [] (ClientConnectRejects (SymbolValue ''ECONNREFUSED''))
          (CallToolResolves [\<lparr>item_type = ''text'', item_text = ''42''\<rparr>])
          new_MCPClient \<lparr>nextRef = 0, sdkCalls = []\<rparr>)
     = Inl (TypeError ''Cannot convert a Symbol value to a string'')"
  by (simp add: callTool_def connect_def connect_catch_def alloc_def emit_call_def
        new_MCPClient_def eval_nat_numeral)

text \<open>
  Away from the defect: when the value the failed attempt throws can be interpolated,
  \<^verbatim>\<open>connect\<close> resolves to \<^verbatim>\<open>false\<close> and leaves \<^verbatim>\<open>connected\<close> false, \<^verbatim>\<open>callTool\<close> returns
  the error result, and the SDK calls made are those of \<^verbatim>\<open>connect\<close> alone. In every
  case, the defect included, a failed attempt makes no tool call and leaves
  \<^verbatim>\<open>connected\<close> false.
\<close>

lemma callTool_unavailable:
  assumes "\<not> connected c" and "thrown_by cenv = Some e" and "interpolation_throws e = None"
  shows "\<exists>c' w' evs.
           connect cenv c w = (Inr False, c', w') \<and> \<not> connected c' \<and>
           callTool name args cenv tenv c w =
             (Inr \<lparr>content = [], MCPToolResult.error = Some ''MCP server not available''\<rparr>, c', w') \<and>
           sdkCalls w' = sdkCalls w @ evs \<and>
           (\<forall>k n a. SdkCallTool k n a \<notin> set evs)"
  using assms
  by (cases cenv)
     (auto simp: callTool_def connect_def connect_catch_def alloc_def emit_call_def Let_def)

lemma failed_connect_makes_no_tool_call:
  assumes "\<not> connected c" and "cenv \<noteq> ClientConnectResolves"
    and "callTool name args cenv tenv c w = (res, c', w')"
  shows "\<not> connected c' \<and> (\<exists>evs. sdkCalls w' = sdkCalls w @ evs \<and> (\<forall>k n a. SdkCallTool k n a \<notin> set evs))"
proof (cases cenv)
  case (TransportCtorThrows e)
  with assms show ?thesis
    using interpolation_throws_cases [of e]
    by (auto simp: callTool_def connect_def connect_catch_def alloc_def emit_call_def Let_def)
next
  case (ClientCtorThrows e)
  with assms show ?thesis
    using interpolation_throws_cases [of e]
    by (auto simp: callTool_def connect_def connect_catch_def alloc_def emit_call_def Let_def)
next
  case (ClientConnectRejects e)
  with assms show ?thesis
    using interpolation_throws_cases [of e]
    by (auto simp: callTool_def connect_def connect_catch_def alloc_def emit_call_def Let_def)
next
  case ClientConnectResolves
  with assms show ?thesis by simp
qed

text \<open>
  Claim C10. Every result \<^verbatim>\<open>callTool\<close> returns is either an error result with empty
  content, or the text extracted from a resolved tool call with no error field. So a
  result with an error has empty content, and a result with content has no error.
\<close>

theorem callTool_content_or_error:
  assumes "callTool name args cenv tenv c w = (Inr r, c', w')"
  shows "((\<exists>m. r = \<lparr>content = [], MCPToolResult.error = Some m\<rparr>) \<or>
          (\<exists>items. tenv = CallToolResolves items \<and>
                    r = \<lparr>content = extract_text items, MCPToolResult.error = None\<rparr>)) \<and>
         (MCPToolResult.error r \<noteq> None \<longrightarrow> content r = []) \<and>
         (content r \<noteq> [] \<longrightarrow> MCPToolResult.error r = None)"
proof -
  have "\<exists>m. r = \<lparr>content = [], MCPToolResult.error = Some m\<rparr>"
    if "callTool_guarded name args tenv c0 w0 = (Inr r, c1, w1)"
      and "\<forall>items. tenv = CallToolResolves items \<longrightarrow>
             r \<noteq> \<lparr>content = extract_text items, MCPToolResult.error = None\<rparr>"
    for c0 w0 c1 w1
    using that
    by (cases tenv; cases "client c0")
       (auto simp: callTool_guarded_def callTool_try_def emit_call_def Let_def)
  moreover obtain r0 c0 w0 where co: "connect cenv c w = (r0, c0, w0)"
    by (cases "connect cenv c w") auto
  ultimately have "(\<exists>m. r = \<lparr>content = [], MCPToolResult.error = Some m\<rparr>) \<or>
          (\<exists>items. tenv = CallToolResolves items \<and>
                    r = \<lparr>content = extract_text items, MCPToolResult.error = None\<rparr>)"
    using assms
    by (cases "connected c"; cases r0) (auto simp: callTool_def split: if_splits)
  then show ?thesis by auto
qed

theorem callTool_content_or_error_witness:
  "callTool ''get_protocol_tvl'' [] ClientConnectResolves
      (CallToolResolves [\<lparr>item_type = ''text'', item_text = ''42''\<rparr>, \<lparr>item_type = ''image'', item_text = ''x''\<rparr>])
      new_MCPClient \<lparr>nextRef = 0, sdkCalls = []\<rparr>
    = (Inr \<lparr>content = ''42\<newline>'', MCPToolResult.error = None\<rparr>,
       \<lparr>client = Some 1, transport = Some 0, connected = True\<rparr>,
       \<lparr>nextRef = 2, sdkCalls = [NewTransport 0, NewClient 1, SdkConnect 1 0, SdkCallTool 1 ''get_protocol_tvl'' []]\<rparr>)
   \<and> content \<lparr>content = ''42\<newline>'', MCPToolResult.error = None\<rparr> \<noteq> []
   \<and> MCPToolResult.error \<lparr>content = ''42\<newline>'', MCPToolResult.error = None\<rparr> = None"
proof -
  have run: "callTool ''get_protocol_tvl'' [] ClientConnectResolves
      (CallToolResolves [\<lparr>item_type = ''text'', item_text = ''42''\<rparr>, \<lparr>item_type = ''image'', item_text = ''x''\<rparr>])
      new_MCPClient \<lparr>nextRef = 0, sdkCalls = []\<rparr>
    = (Inr \<lparr>content = ''42\<newline>'', MCPToolResult.error = None\<rparr>,
       \<lparr>client = Some 1, transport = Some 0, connected = True\<rparr>,
       \<lparr>nextRef = 2, sdkCalls = [NewTransport 0, NewClient 1, SdkConnect 1 0, SdkCallTool 1 ''get_protocol_tvl'' []]\<rparr>)"
    by (simp add: callTool_def callTool_guarded_def callTool_try_def connect_def alloc_def
          emit_call_def new_MCPClient_def extract_text_def eval_nat_numeral)
  from callTool_content_or_error [OF run]
  have "content \<lparr>content = ''42\<newline>'', MCPToolResult.error = None\<rparr> \<noteq> [] \<longrightarrow>
        MCPToolResult.error \<lparr>content = ''42\<newline>'', MCPToolResult.error = None\<rparr> = None"
    by blast
  then show ?thesis using run by simp
qed

subsection \<open>The invariant of the client\<close>

lemma connect_invariant:
  "connect env c w = (res, c', w') \<Longrightarrow> (connected c \<longrightarrow> client c \<noteq> None) \<Longrightarrow>
   connected c' \<longrightarrow> client c' \<noteq> None"
  by (cases env)
     (auto simp: connect_def connect_catch_def alloc_def emit_call_def Let_def
       split: if_splits option.splits)

lemma callTool_guarded_state: "callTool_guarded name args tenv c w = (res, c', w') \<Longrightarrow> c' = c"
  by (auto simp: callTool_guarded_def split: prod.splits sum.splits)

lemma callTool_invariant:
  assumes "callTool name args cenv tenv c w = (res, c', w')"
    and "connected c \<longrightarrow> client c \<noteq> None"
  shows "connected c' \<longrightarrow> client c' \<noteq> None"
proof (cases "connected c")
  case True
  with assms show ?thesis
    by (auto simp: callTool_def dest: callTool_guarded_state)
next
  case False
  obtain r1 c1 w1 where co: "connect cenv c w = (r1, c1, w1)"
    by (cases "connect cenv c w") auto
  from connect_invariant [OF co assms(2)] have inv1: "connected c1 \<longrightarrow> client c1 \<noteq> None" .
  from assms(1) False co have "c' = c1"
    by (auto simp: callTool_def split: sum.splits if_splits dest: callTool_guarded_state)
  with inv1 show ?thesis by simp
qed

lemma disconnect_invariant:
  "disconnect b c w = (res, c', w') \<Longrightarrow> (connected c \<longrightarrow> client c \<noteq> None) \<Longrightarrow>
   connected c' \<longrightarrow> client c' \<noteq> None"
  by (auto simp: disconnect_def Let_def split: option.splits close_env.splits)

lemma reachable_invariant: "reachable c \<Longrightarrow> connected c \<longrightarrow> client c \<noteq> None"
proof (induction rule: reachable.induct)
  case r_new
  show ?case by (simp add: new_MCPClient_def)
next
  case (r_connect c env w res c' w')
  then show ?case using connect_invariant by blast
next
  case (r_callTool c name args cenv tenv w res c' w')
  then show ?case using callTool_invariant by blast
next
  case (r_disconnect c b w res c' w')
  then show ?case using disconnect_invariant by blast
qed

lemma callTool_connected_with_client:
  "connected c \<Longrightarrow> client c = Some k \<Longrightarrow>
   \<exists>r w'. callTool name args cenv tenv c w = (Inr r, c, w') \<and>
          sdkCalls w' = sdkCalls w @ [SdkCallTool k name args]"
  by (cases tenv) (auto simp: callTool_def callTool_guarded_def callTool_try_def emit_call_def)

text \<open>
  Claim C9. In every state a client reaches through its methods, \<^verbatim>\<open>connected\<close> implies
  that \<^verbatim>\<open>client\<close> is not \<^verbatim>\<open>null\<close>. Hence after a \<^verbatim>\<open>connect\<close> that resolved to \<^verbatim>\<open>true\<close>
  the test \<^verbatim>\<open>!this.client\<close> of line 64 fails and \<^verbatim>\<open>callTool\<close> reaches the SDK's
  \<^verbatim>\<open>callTool\<close>; and \<^verbatim>\<open>connect\<close> on a connected client resolves to \<^verbatim>\<open>true\<close> with the
  client and the SDK log unchanged: no transport or client is built.
\<close>

theorem connected_implies_client:
  assumes "reachable c"
  shows "(connected c \<longrightarrow> client c \<noteq> None) \<and>
         (\<forall>env w c1 w1. connect env c w = (Inr True, c1, w1) \<longrightarrow>
            (\<exists>k. client c1 = Some k \<and>
               (\<forall>name args cenv tenv. \<exists>r w2.
                   callTool name args cenv tenv c1 w1 = (Inr r, c1, w2) \<and>
                   sdkCalls w2 = sdkCalls w1 @ [SdkCallTool k name args]))) \<and>
         (connected c \<longrightarrow> (\<forall>env w. connect env c w = (Inr True, c, w)))"
proof (intro conjI allI impI)
  show "client c \<noteq> None" if "connected c"
    using reachable_invariant [OF assms] that by simp
next
  fix env w c1 w1
  assume co: "connect env c w = (Inr True, c1, w1)"
  have r1: "reachable c1" using assms co by (rule reachable.r_connect)
  have conn: "connected c1" using co
    by (cases env)
       (auto simp: connect_def connect_catch_def alloc_def emit_call_def Let_def
         split: if_splits option.splits)
  with reachable_invariant [OF r1] obtain k where k: "client c1 = Some k" by auto
  have "\<exists>r w2. callTool name args cenv tenv c1 w1 = (Inr r, c1, w2) \<and>
                   sdkCalls w2 = sdkCalls w1 @ [SdkCallTool k name args]" for name args cenv tenv
    using callTool_connected_with_client [OF conn k, of name args cenv tenv w1] .
  with k show "\<exists>k. client c1 = Some k \<and>
               (\<forall>name args cenv tenv. \<exists>r w2.
                   callTool name args cenv tenv c1 w1 = (Inr r, c1, w2) \<and>
                   sdkCalls w2 = sdkCalls w1 @ [SdkCallTool k name args])"
    by blast
next
  fix env w
  show "connect env c w = (Inr True, c, w)" if "connected c"
    using that by (simp add: connect_def)
qed

theorem connected_implies_client_witness:
  "reachable \<lparr>client = Some 1, transport = Some 0, connected = True\<rparr> \<and>
   connect (ClientConnectRejects (Error ''fetch failed''))
      \<lparr>client = Some 1, transport = Some 0, connected = True\<rparr>
      \<lparr>nextRef = 2, sdkCalls = [NewTransport 0, NewClient 1, SdkConnect 1 0]\<rparr>
     = (Inr True, \<lparr>client = Some 1, transport = Some 0, connected = True\<rparr>,
        \<lparr>nextRef = 2, sdkCalls = [NewTransport 0, NewClient 1, SdkConnect 1 0]\<rparr>)"
proof -
  have co: "connect ClientConnectResolves new_MCPClient \<lparr>nextRef = 0, sdkCalls = []\<rparr>
     = (Inr True, \<lparr>client = Some 1, transport = Some 0, connected = True\<rparr>,
        \<lparr>nextRef = 2, sdkCalls = [NewTransport 0, NewClient 1, SdkConnect 1 0]\<rparr>)"
    by (simp add: connect_def new_MCPClient_def alloc_def emit_call_def eval_nat_numeral)
  have r: "reachable \<lparr>client = Some 1, transport = Some 0, connected = True\<rparr>"
    using reachable.r_new co by (rule reachable.r_connect)
  from connected_implies_client [OF r] show ?thesis using r by simp
qed

subsection \<open>The singleton\<close>

text \<open>
  Claim C8. \<^verbatim>\<open>getMCPClient\<close> creates the \<^verbatim>\<open>MCPClient\<close> when \<^verbatim>\<open>mcpClientInstance\<close> is
  \<^verbatim>\<open>null\<close> and only then. Every call made while the variable holds what the first call
  left there returns the reference the first call returned and changes nothing,
  whatever happened to the objects in between; any number of calls in a row return that
  one reference and leave the state the first call left.
\<close>

theorem getMCPClient_singleton:
  "(\<forall>m2. mcpClientInstance m2 = mcpClientInstance (snd (getMCPClient m)) \<longrightarrow>
          getMCPClient m2 = (fst (getMCPClient m), m2)) \<and>
   set (fst (getMCPClient_times n m)) \<subseteq> {fst (getMCPClient m)} \<and>
   (0 < n \<longrightarrow> snd (getMCPClient_times n m) = snd (getMCPClient m)) \<and>
   (mcpClientInstance m = None \<longrightarrow>
      getMCPClient m = (nextObj m, m\<lparr>mcpClientInstance := Some (nextObj m),
                                     objects := (objects m)(nextObj m \<mapsto> new_MCPClient),
                                     nextObj := Suc (nextObj m)\<rparr>)) \<and>
   (mcpClientInstance m \<noteq> None \<longrightarrow> snd (getMCPClient m) = m)"
proof -
  have later: "getMCPClient m2 = (fst (getMCPClient m), m2)"
    if "mcpClientInstance m2 = mcpClientInstance (snd (getMCPClient m))" for m m2
    using that by (auto simp: getMCPClient_def Let_def split: option.splits)
  have again: "getMCPClient (snd (getMCPClient m)) = getMCPClient m" for m
    using later [of "snd (getMCPClient m)" m] by simp
  have times: "set (fst (getMCPClient_times n m)) \<subseteq> {fst (getMCPClient m)} \<and>
               (0 < n \<longrightarrow> snd (getMCPClient_times n m) = snd (getMCPClient m))" for m
  proof (induction n arbitrary: m)
    case 0
    show ?case by simp
  next
    case (Suc n)
    from Suc.IH [of "snd (getMCPClient m)"] again [of m]
    show ?case by (cases n) (auto simp: split_beta Let_def)
  qed
  show ?thesis
    using later [of _ m] times [of m]
    by (auto simp: getMCPClient_def Let_def split: option.splits)
qed

theorem getMCPClient_singleton_witness:
  "fst (getMCPClient_times 3 module_init) = [0, 0, 0] \<and>
   getMCPClient (snd (getMCPClient module_init)) = (0, snd (getMCPClient module_init)) \<and>
   nextObj (snd (getMCPClient_times 3 module_init)) = 1"
proof -
  have g: "getMCPClient module_init =
      (0, \<lparr>mcpClientInstance = Some 0, objects = (\<lambda>_. None)(0 \<mapsto> new_MCPClient), nextObj = 1\<rparr>)"
    by (simp add: getMCPClient_def module_init_def)
  have l: "length (fst (getMCPClient_times 3 module_init)) = 3"
    by (simp add: eval_nat_numeral split_beta Let_def)
  from getMCPClient_singleton [of module_init 3] g
  have s: "set (fst (getMCPClient_times 3 module_init)) \<subseteq> {0}"
    and t: "snd (getMCPClient_times 3 module_init) = snd (getMCPClient module_init)"
    and a: "getMCPClient (snd (getMCPClient module_init)) = (0, snd (getMCPClient module_init))"
    by auto
  from s l have "fst (getMCPClient_times 3 module_init) = [0, 0, 0]"
    by (cases "fst (getMCPClient_times 3 module_init)" rule: list.exhaust; simp; 
        (cases "tl (fst (getMCPClient_times 3 module_init))"; simp)?)
       (auto simp: length_Suc_conv eval_nat_numeral)
  with t a g show ?thesis by simp
qed

section \<open>Properties of \<^verbatim>\<open>DeFiAgent.execute\<close>\<close>

lemma execute_try_Inr:
  "execute_try ao env ctx = (Inr out, ctx') \<Longrightarrow> \<exists>m. out = ao\<lparr>result := Some m\<rparr>"
  by (auto simp: execute_try_def Let_def split: sum.splits option.splits)

lemma execute_catch_Inr:
  "execute_catch errs ao e ctx = (Inr out, ctx') \<Longrightarrow> out = ao\<lparr>error := Some (errorMsg e)\<rparr>"
  by (auto simp: execute_catch_def Let_def split: if_splits)

text \<open>
  Claim C2, as stated, fails: the \<^verbatim>\<open>AgentOutput\<close> that \<^verbatim>\<open>execute\<close> constructs (line 65)
  has neither \<^verbatim>\<open>result\<close> nor \<^verbatim>\<open>error\<close> set, so nothing at construction makes the two
  fields exclusive.
\<close>

theorem agentOutput_construction_counterexample:
  "\<not> result_xor_error (new_agentOutput ''defi'' :: DeFiAnalysis AgentOutput)"
  by (simp add: result_xor_error_def new_agentOutput_def)

text \<open>
  Claim C2, amended. Every \<^verbatim>\<open>AgentOutput\<close> that \<^verbatim>\<open>execute\<close> returns has exactly one of
  \<^verbatim>\<open>result\<close> and \<^verbatim>\<open>error\<close> set, and carries the agent's id: the value is constructed
  with neither field, and each path to a \<^verbatim>\<open>return\<close> assigns exactly one of them.
\<close>

theorem execute_result_xor_error:
  assumes "execute this_id errs env ctx = (Inr out, ctx')"
  shows "result_xor_error out \<and> id_out out = this_id"
proof (cases "execute_try (new_agentOutput this_id) env ctx")
  case (Pair r ctx1)
  show ?thesis
  proof (cases r)
    case (Inl e)
    with Pair assms have "execute_catch errs (new_agentOutput this_id) e ctx1 = (Inr out, ctx')"
      by (simp add: execute_def)
    from execute_catch_Inr [OF this] show ?thesis
      by (simp add: result_xor_error_def new_agentOutput_def)
  next
    case (Inr out1)
    with Pair assms have "out1 = out" by (simp add: execute_def)
    with Pair Inr execute_try_Inr [of "new_agentOutput this_id" env ctx out ctx1]
    show ?thesis by (auto simp: result_xor_error_def new_agentOutput_def)
  qed
qed

theorem execute_result_xor_error_witness:
  "fst (execute ''defi'' example_errors (example_env (Inr (Some example_analysis)))
          \<lparr>events = [], actionResults = []\<rparr>)
     = Inr \<lparr>id_out = ''defi'', result = Some example_analysis, error = None\<rparr>
   \<and> result_xor_error \<lparr>id_out = ''defi'', result = Some example_analysis, error = None\<rparr>
   \<and> fst (execute ''defi'' example_errors (example_env (Inr None))
          \<lparr>events = [], actionResults = []\<rparr>)
     = Inr \<lparr>id_out = ''defi'', result = None, error = Some ''Failed to validate DeFi analysis output''\<rparr>
   \<and> result_xor_error \<lparr>id_out = ''defi'', result = None :: DeFiAnalysis option,
                         error = Some ''Failed to validate DeFi analysis output''\<rparr>"
proof -
  obtain ctx1 where a: "execute ''defi'' example_errors (example_env (Inr (Some example_analysis)))
          \<lparr>events = [], actionResults = []\<rparr>
     = (Inr \<lparr>id_out = ''defi'', result = Some example_analysis, error = None\<rparr>, ctx1)"
    by (simp add: execute_def execute_try_def example_env_def new_agentOutput_def Let_def)
  obtain ctx2 where b: "execute ''defi'' example_errors (example_env (Inr None))
          \<lparr>events = [], actionResults = []\<rparr>
     = (Inr \<lparr>id_out = ''defi'', result = None, error = Some ''Failed to validate DeFi analysis output''\<rparr>, ctx2)"
    by (simp add: execute_def execute_try_def execute_catch_def example_env_def example_errors_def
          new_agentOutput_def Let_def)
  from execute_result_xor_error [OF a] execute_result_xor_error [OF b] a b
  show ?thesis by simp
qed

text \<open>
  Claim C6. Whatever value \<open>e\<close> the \<^verbatim>\<open>try\<close> block throws, the \<^verbatim>\<open>catch\<close> tests it in the
  order aborted, authentication, bad request, forbidden: the first test that holds
  makes \<^verbatim>\<open>execute\<close> throw \<^verbatim>\<open>RequestCancelledError\<close>, \<^verbatim>\<open>ChatModelAuthError\<close>,
  \<^verbatim>\<open>ChatModelBadRequestError\<close> or \<^verbatim>\<open>ChatModelForbiddenError\<close>, four different classes,
  which the Executor's handler turns into \<^verbatim>\<open>Cancelled\<close> for the first and \<^verbatim>\<open>Failed\<close> for
  the three others; when none holds, \<^verbatim>\<open>execute\<close> returns an \<^verbatim>\<open>AgentOutput\<close> whose
  \<^verbatim>\<open>error\<close> is the message of \<open>e\<close>, after a \<^verbatim>\<open>STEP_FAIL\<close> event.
\<close>

theorem execute_error_mapping:
  assumes "execute_try (new_agentOutput this_id) env ctx = (Inl e, ctx1)"
  shows "(isAbortedError errs e \<longrightarrow>
            execute this_id errs env ctx = (Inl (RequestCancelledError ''DeFi analysis was cancelled''), ctx1) \<and>
            on_fatal (RequestCancelledError ''DeFi analysis was cancelled'') = (Cancelled, TASK_CANCEL)) \<and>
         (\<not> isAbortedError errs e \<and> isAuthenticationError errs e \<longrightarrow>
            execute this_id errs env ctx = (Inl (ChatModelAuthError ''Authentication failed for DeFi analysis''), ctx1) \<and>
            on_fatal (ChatModelAuthError ''Authentication failed for DeFi analysis'')
              = (Failed (Uncaught (ChatModelAuthError ''Authentication failed for DeFi analysis'')), TASK_FAIL)) \<and>
         (\<not> isAbortedError errs e \<and> \<not> isAuthenticationError errs e \<and> isBadRequestError errs e \<longrightarrow>
            execute this_id errs env ctx = (Inl (ChatModelBadRequestError ''Invalid request for DeFi analysis''), ctx1) \<and>
            on_fatal (ChatModelBadRequestError ''Invalid request for DeFi analysis'')
              = (Failed (Uncaught (ChatModelBadRequestError ''Invalid request for DeFi analysis'')), TASK_FAIL)) \<and>
         (\<not> isAbortedError errs e \<and> \<not> isAuthenticationError errs e \<and> \<not> isBadRequestError errs e \<and>
          isForbiddenError errs e \<longrightarrow>
            execute this_id errs env ctx = (Inl (ChatModelForbiddenError ''Access forbidden for DeFi analysis''), ctx1) \<and>
            on_fatal (ChatModelForbiddenError ''Access forbidden for DeFi analysis'')
              = (Failed (Uncaught (ChatModelForbiddenError ''Access forbidden for DeFi analysis'')), TASK_FAIL)) \<and>
         (\<not> isAbortedError errs e \<and> \<not> isAuthenticationError errs e \<and> \<not> isBadRequestError errs e \<and>
          \<not> isForbiddenError errs e \<longrightarrow>
            execute this_id errs env ctx =
              (Inr \<lparr>id_out = this_id, result = None, error = Some (errorMsg e)\<rparr>,
               emitEvent SYSTEM STEP_FAIL (''DeFi analysis failed: '' @ errorMsg e) ctx1))"
  using assms
  by (simp add: execute_def execute_catch_def new_agentOutput_def Let_def)

theorem execute_error_mapping_witness:
  "fst (execute ''defi'' example_errors (example_env (Inl (Error ''AbortError''))) \<lparr>events = [], actionResults = []\<rparr>)
     = Inl (RequestCancelledError ''DeFi analysis was cancelled'')
   \<and> fst (execute ''defi'' example_errors (example_env (Inl (Error ''401''))) \<lparr>events = [], actionResults = []\<rparr>)
     = Inl (ChatModelAuthError ''Authentication failed for DeFi analysis'')
   \<and> fst (execute ''defi'' example_errors (example_env (Inl (Error ''400''))) \<lparr>events = [], actionResults = []\<rparr>)
     = Inl (ChatModelBadRequestError ''Invalid request for DeFi analysis'')
   \<and> fst (execute ''defi'' example_errors (example_env (Inl (Error ''403''))) \<lparr>events = [], actionResults = []\<rparr>)
     = Inl (ChatModelForbiddenError ''Access forbidden for DeFi analysis'')
   \<and> fst (execute ''defi'' example_errors (example_env (Inl (NonError ''socket hang up''))) \<lparr>events = [], actionResults = []\<rparr>)
     = Inr \<lparr>id_out = ''defi'', result = None, error = Some ''socket hang up''\<rparr>"
proof -
  have t: "execute_try (new_agentOutput ''defi'') (example_env (Inl e)) \<lparr>events = [], actionResults = []\<rparr>
        = (Inl e, emitEvent SYSTEM STEP_START ''DeFi Agent analyzing protocol...'' \<lparr>events = [], actionResults = []\<rparr>)" for e
    by (simp add: execute_try_def example_env_def Let_def)
  show ?thesis
    using execute_error_mapping [OF t [of "Error ''AbortError''"], of example_errors]
      execute_error_mapping [OF t [of "Error ''401''"], of example_errors]
      execute_error_mapping [OF t [of "Error ''400''"], of example_errors]
      execute_error_mapping [OF t [of "Error ''403''"], of example_errors]
      execute_error_mapping [OF t [of "NonError ''socket hang up''"], of example_errors]
    by (simp add: example_errors_def)
qed

section \<open>Properties of the step loop\<close>

subsection \<open>One iteration\<close>

lemma plan_phase_calls:
  "plan_phase E k s v = Break x v1 \<Longrightarrow>
     planning_gate k s (navigatorDone v) \<and> \<not> planner_lets_on E s \<and> calls v1 = calls v @ [CallPlanner s]"
  "plan_phase E k s v = Continue v1 \<Longrightarrow>
     (planning_gate k s (navigatorDone v) \<longrightarrow> planner_lets_on E s) \<and> navigatorDone v1 = navigatorDone v \<and>
     calls v1 = calls v @ (if planning_gate k s (navigatorDone v) then [CallPlanner s] else [])"
  by (auto simp: plan_phase_def planner_lets_on_def Let_def split: if_splits sum.splits)

lemma navigate_phase_calls:
  "navigate_phase E s v = Break x v1 \<Longrightarrow> \<not> navigator_returns E s \<and> calls v1 = calls v @ [CallNavigator s]"
  "navigate_phase E s v = Continue v1 \<Longrightarrow>
     navigator_returns E s \<and> navigate E s = Inr (navigatorDone v1) \<and> calls v1 = calls v @ [CallNavigator s]"
  by (auto simp: navigate_phase_def navigator_returns_def split: sum.splits)

lemma iteration_Break:
  assumes "iteration E k s v = Break x v1"
  shows "calls v1 = calls v @ iteration_calls E k s (navigatorDone v)"
    and "shouldStop E s \<or> (planning_gate k s (navigatorDone v) \<and> \<not> planner_lets_on E s) \<or> \<not> navigator_returns E s"
proof -
  show "calls v1 = calls v @ iteration_calls E k s (navigatorDone v)"
  proof (cases "shouldStop E s")
    case True
    with assms show ?thesis by (simp add: iteration_def iteration_calls_def)
  next
    case ns: False
    show ?thesis
    proof (cases "plan_phase E k s v")
      case (Break y v2)
      with assms ns have "v2 = v1" by (simp add: iteration_def)
      with plan_phase_calls(1) [OF Break] ns show ?thesis by (simp add: iteration_calls_def)
    next
      case (Continue v2)
      with assms ns have n: "navigate_phase E s v2 = Break x v1" by (simp add: iteration_def)
      from plan_phase_calls(2) [OF Continue] navigate_phase_calls(1) [OF n] ns
      show ?thesis by (simp add: iteration_calls_def)
    qed
  qed
  show "shouldStop E s \<or> (planning_gate k s (navigatorDone v) \<and> \<not> planner_lets_on E s) \<or> \<not> navigator_returns E s"
  proof (cases "shouldStop E s")
    case True
    then show ?thesis by simp
  next
    case ns: False
    show ?thesis
    proof (cases "plan_phase E k s v")
      case (Break y v2)
      with plan_phase_calls(1) [OF Break] show ?thesis by simp
    next
      case (Continue v2)
      with assms ns have n: "navigate_phase E s v2 = Break x v1" by (simp add: iteration_def)
      from navigate_phase_calls(1) [OF n] show ?thesis by simp
    qed
  qed
qed

lemma iteration_Continue:
  assumes "iteration E k s v = Continue v1"
  shows "calls v1 = calls v @ iteration_calls E k s (navigatorDone v)"
    and "\<not> shouldStop E s"
    and "planning_gate k s (navigatorDone v) \<longrightarrow> planner_lets_on E s"
    and "navigator_returns E s"
    and "navigate E s = Inr (navigatorDone v1)"
proof -
  show ns: "\<not> shouldStop E s" using assms by (auto simp: iteration_def split: if_splits)
  from assms ns obtain v2 where p: "plan_phase E k s v = Continue v2"
    and n: "navigate_phase E s v2 = Continue v1"
    by (cases "plan_phase E k s v") (auto simp: iteration_def)
  from plan_phase_calls(2) [OF p] navigate_phase_calls(2) [OF n] ns
  show "calls v1 = calls v @ iteration_calls E k s (navigatorDone v)"
    and "planning_gate k s (navigatorDone v) \<longrightarrow> planner_lets_on E s"
    and "navigator_returns E s"
    and "navigate E s = Inr (navigatorDone v1)"
    by (simp_all add: iteration_calls_def)
qed

subsection \<open>The agent runs of the loop\<close>

lemma expected_calls_empty: "hi \<le> lo \<Longrightarrow> expected_calls E k lo hi = []"
  by (simp add: expected_calls_def)

lemma expected_calls_first:
  "lo < hi \<Longrightarrow> expected_calls E k lo hi =
     iteration_calls E k lo (prior_navigator_done E lo) @ expected_calls E k (Suc lo) hi"
  by (simp add: expected_calls_def upt_conv_Cons)

lemma step_loop_trace:
  assumes "step_loop E N k s0 v = (x, sf, v')"
    and "navigatorDone v = prior_navigator_done E s0"
    and "s0 \<le> N"
  shows "s0 \<le> sf \<and> sf \<le> N \<and> (x = Exhausted \<longleftrightarrow> sf = N) \<and>
         (\<forall>j. s0 \<le> j \<and> j < sf \<longrightarrow> iteration_continues E k j) \<and>
         (sf < N \<longrightarrow> \<not> iteration_continues E k sf) \<and>
         calls v' = calls v @ expected_calls E k s0 (min N (Suc sf))"
  using assms
proof (induction E N k s0 v rule: step_loop.induct)
  case (1 E N k s0 v)
  show ?case
  proof (cases "s0 < N")
    case False
    with "1.prems" have "s0 = N" by simp
    with "1.prems"(1) show ?thesis
      by (auto simp: step_loop.simps expected_calls_empty)
  next
    case lt: True
    show ?thesis
    proof (cases "iteration E k s0 v")
      case (Break y v1)
      with lt "1.prems"(1) have eq: "x = y" "sf = s0" "v' = v1"
        by (simp_all add: step_loop.simps)
      have ne: "y \<noteq> Exhausted"
        using Break
        by (auto simp: iteration_def plan_phase_def navigate_phase_def Let_def
            split: if_splits sum.splits flow.splits)
      have m: "min N (Suc s0) = Suc s0" using lt by simp
      have nc: "\<not> iteration_continues E k s0"
        using iteration_Break(2) [OF Break] "1.prems"(2)
        by (auto simp: iteration_continues_def gate_at_def)
      from iteration_Break(1) [OF Break] "1.prems"(2) eq lt ne m nc show ?thesis
        by (auto simp: expected_calls_first expected_calls_empty)
    next
      case (Continue v1)
      with lt "1.prems"(1) have sl: "step_loop E N k (Suc s0) v1 = (x, sf, v')"
        by (simp add: step_loop.simps)
      note it = iteration_Continue [OF Continue]
      have nd: "navigatorDone v1 = prior_navigator_done E (Suc s0)"
        using it(5) by (cases "navigatorDone v1") simp_all
      have le: "Suc s0 \<le> N" using lt by simp
      from "1.IH" [OF lt Continue sl nd le]
      have ih: "Suc s0 \<le> sf" "sf \<le> N" "x = Exhausted \<longleftrightarrow> sf = N"
        "\<forall>j. Suc s0 \<le> j \<and> j < sf \<longrightarrow> iteration_continues E k j"
        "sf < N \<longrightarrow> \<not> iteration_continues E k sf"
        "calls v' = calls v1 @ expected_calls E k (Suc s0) (min N (Suc sf))"
        by simp_all
      have co: "iteration_continues E k s0"
        using it(2,3,4) "1.prems"(2) by (simp add: iteration_continues_def gate_at_def)
      have all: "\<forall>j. s0 \<le> j \<and> j < sf \<longrightarrow> iteration_continues E k j"
      proof (intro allI impI)
        fix j assume "s0 \<le> j \<and> j < sf"
        then show "iteration_continues E k j"
          using co ih(4) by (cases "j = s0") auto
      qed
      have lo: "s0 < min N (Suc sf)" using lt ih(1) by simp
      have "calls v' = calls v @ expected_calls E k s0 (min N (Suc sf))"
        using ih(6) it(1) "1.prems"(2) expected_calls_first [OF lo, of E k] by simp
      with ih all show ?thesis by auto
    qed
  qed
qed

lemma iteration_calls_step:
  "c \<in> set (iteration_calls E k s nd) \<Longrightarrow> c = CallPlanner s \<or> c = CallNavigator s"
  by (auto simp: iteration_calls_def split: if_splits)

lemma expected_calls_planner:
  "CallPlanner s \<in> set (expected_calls E k lo hi) \<longleftrightarrow>
     lo \<le> s \<and> s < hi \<and> \<not> shouldStop E s \<and> gate_at E k s"
proof
  assume "CallPlanner s \<in> set (expected_calls E k lo hi)"
  then obtain j where j: "lo \<le> j" "j < hi"
    and m: "CallPlanner s \<in> set (iteration_calls E k j (prior_navigator_done E j))"
    by (auto simp: expected_calls_def)
  from iteration_calls_step [OF m] have "j = s" by simp
  with j m show "lo \<le> s \<and> s < hi \<and> \<not> shouldStop E s \<and> gate_at E k s"
    by (auto simp: iteration_calls_def gate_at_def split: if_splits)
next
  assume a: "lo \<le> s \<and> s < hi \<and> \<not> shouldStop E s \<and> gate_at E k s"
  then have "CallPlanner s \<in> set (iteration_calls E k s (prior_navigator_done E s))"
    by (simp add: iteration_calls_def gate_at_def)
  with a show "CallPlanner s \<in> set (expected_calls E k lo hi)"
    by (auto simp: expected_calls_def)
qed

lemma expected_calls_navigator:
  "CallNavigator s \<in> set (expected_calls E k lo hi) \<longleftrightarrow>
     lo \<le> s \<and> s < hi \<and> \<not> shouldStop E s \<and> (gate_at E k s \<longrightarrow> planner_lets_on E s)"
proof
  assume "CallNavigator s \<in> set (expected_calls E k lo hi)"
  then obtain j where j: "lo \<le> j" "j < hi"
    and m: "CallNavigator s \<in> set (iteration_calls E k j (prior_navigator_done E j))"
    by (auto simp: expected_calls_def)
  from iteration_calls_step [OF m] have "j = s" by simp
  with j m show "lo \<le> s \<and> s < hi \<and> \<not> shouldStop E s \<and> (gate_at E k s \<longrightarrow> planner_lets_on E s)"
    by (auto simp: iteration_calls_def gate_at_def split: if_splits)
next
  assume a: "lo \<le> s \<and> s < hi \<and> \<not> shouldStop E s \<and> (gate_at E k s \<longrightarrow> planner_lets_on E s)"
  then have "CallNavigator s \<in> set (iteration_calls E k s (prior_navigator_done E s))"
    by (simp add: iteration_calls_def gate_at_def)
  with a show "CallNavigator s \<in> set (expected_calls E k lo hi)"
    by (auto simp: expected_calls_def)
qed

lemma run_loop_trace:
  assumes "run_loop E N k = (x, sf, v')"
  shows "sf \<le> N" and "x = Exhausted \<longleftrightarrow> sf = N"
    and "\<forall>j<sf. iteration_continues E k j"
    and "calls v' = expected_calls E k 0 (min N (Suc sf))"
    and "sf < N \<longrightarrow> \<not> iteration_continues E k sf"
proof -
  have nd: "navigatorDone loop_init = prior_navigator_done E 0" by (simp add: loop_init_def)
  from assms have sl: "step_loop E N k 0 loop_init = (x, sf, v')" by (simp add: run_loop_def)
  from step_loop_trace [OF sl nd]
  show "sf \<le> N" and "x = Exhausted \<longleftrightarrow> sf = N"
    and "\<forall>j<sf. iteration_continues E k j"
    and "calls v' = expected_calls E k 0 (min N (Suc sf))"
    and "sf < N \<longrightarrow> \<not> iteration_continues E k sf"
    by (simp_all add: loop_init_def)
qed

lemma run_example: "run_loop (example_executor_env never never never) 3 3 =
   (Exhausted, 3, \<lparr>latestPlanOutput = Some (example_plan False), navigatorDone = False,
       calls = [CallPlanner 0, CallNavigator 0, CallNavigator 1, CallNavigator 2]\<rparr>)"
  by (simp add: run_loop_def step_loop.simps iteration_def plan_phase_def navigate_phase_def
       planning_gate_def loop_init_def example_executor_env_def never_def checkTaskCompletion_spec_def
       example_plan_def Let_def)

lemmas loop_eval = run_loop_def step_loop.simps iteration_def plan_phase_def navigate_phase_def
  planning_gate_def loop_init_def example_executor_env_def never_def always_def from_step_def
  checkTaskCompletion_spec_def example_plan_def Let_def loop_calls_def task_outcome_def

text \<open>
  Claim C4, as stated, fails in an iteration that the stop check of line 114 cuts
  short: with \<^verbatim>\<open>maxSteps = 3\<close>, \<^verbatim>\<open>planningInterval = 1\<close> and a stop seen from step 1 on, the
  loop is left inside the iteration with \<^verbatim>\<open>step = 1\<close>, where \<^verbatim>\<open>step % planningInterval\<close>
  is 0, and the Planner is not run in it.
\<close>

theorem planner_runs_iff_gate_counterexample:
  "fst (snd (run_loop (example_executor_env (from_step 1) never never) 3 1)) = 1 \<and>
   loop_calls (example_executor_env (from_step 1) never never) 3 1 = [CallPlanner 0, CallNavigator 0] \<and>
   planning_gate 1 1 (prior_navigator_done (example_executor_env (from_step 1) never never) 1) \<and>
   \<not> (CallPlanner 1 \<in> set (loop_calls (example_executor_env (from_step 1) never never) 3 1) \<longleftrightarrow>
      planning_gate 1 1 (prior_navigator_done (example_executor_env (from_step 1) never never) 1))"
  by (simp add: loop_eval)

text \<open>
  Claim C4, amended. Take any run of the loop and any iteration \<open>s\<close> of it that gets past
  the stop check of line 114 (iteration \<open>s\<close> is entered when \<open>s < maxSteps\<close> and \<open>s\<close> is at
  most the final value of \<^verbatim>\<open>step\<close>). The Planner is run in it if and only if
  \<^verbatim>\<open>step % planningInterval === 0\<close> or the Navigator run of the iteration before
  returned \<^verbatim>\<open>true\<close>; when neither holds, the Navigator is run and the Planner is not.
  An iteration in which the stop check breaks the loop runs neither agent.
\<close>

theorem planner_runs_iff_gate:
  assumes "run_loop E maxSteps planningInterval = (x, sf, v')"
    and "s < maxSteps" and "s \<le> sf"
  shows "(\<not> shouldStop E s \<longrightarrow>
            (CallPlanner s \<in> set (calls v') \<longleftrightarrow>
               planning_gate planningInterval s (prior_navigator_done E s)) \<and>
            (\<not> planning_gate planningInterval s (prior_navigator_done E s) \<longrightarrow>
               CallNavigator s \<in> set (calls v') \<and> CallPlanner s \<notin> set (calls v'))) \<and>
         (shouldStop E s \<longrightarrow>
            CallPlanner s \<notin> set (calls v') \<and> CallNavigator s \<notin> set (calls v'))"
proof -
  from run_loop_trace(4) [OF assms(1)]
  have c: "calls v' = expected_calls E planningInterval 0 (min maxSteps (Suc sf))" .
  have r: "s < min maxSteps (Suc sf)" using assms(2,3) by simp
  show ?thesis
    using r unfolding c expected_calls_planner expected_calls_navigator
    by (simp add: gate_at_def)
qed

theorem planner_runs_iff_gate_witness:
  "run_loop (example_executor_env never never never) 3 3 =
     (Exhausted, 3, \<lparr>latestPlanOutput = Some (example_plan False), navigatorDone = False,
        calls = [CallPlanner 0, CallNavigator 0, CallNavigator 1, CallNavigator 2]\<rparr>) \<and>
   planning_gate 3 0 (prior_navigator_done (example_executor_env never never never) 0) \<and>
   CallPlanner 0 \<in> set [CallPlanner 0, CallNavigator 0, CallNavigator 1, CallNavigator 2] \<and>
   \<not> planning_gate 3 1 (prior_navigator_done (example_executor_env never never never) 1) \<and>
   CallPlanner 1 \<notin> set [CallPlanner 0, CallNavigator 0, CallNavigator 1, CallNavigator 2]"
proof -
  have ns: "\<not> shouldStop (example_executor_env never never never) s" for s
    by (simp add: example_executor_env_def never_def)
  have g0: "planning_gate 3 0 (prior_navigator_done (example_executor_env never never never) 0)"
    by (simp add: planning_gate_def)
  have g1: "\<not> planning_gate 3 1 (prior_navigator_done (example_executor_env never never never) 1)"
    by (simp add: planning_gate_def example_executor_env_def never_def)
  from planner_runs_iff_gate [OF run_example, of 0] planner_runs_iff_gate [OF run_example, of 1]
    ns g0 g1 run_example
  show ?thesis by simp
qed

subsection \<open>The step budget\<close>

lemma filter_iteration_calls:
  "iteration_continues E k s \<Longrightarrow>
   filter is_navigator_call (iteration_calls E k s (prior_navigator_done E s)) = [CallNavigator s]"
  by (auto simp: iteration_continues_def iteration_calls_def gate_at_def)

lemma filter_expected_calls:
  assumes "\<forall>s<hi. iteration_continues E k s"
  shows "filter is_navigator_call (expected_calls E k 0 hi) = map CallNavigator [0..<hi]"
  using assms
proof (induction hi)
  case 0
  show ?case by (simp add: expected_calls_def)
next
  case (Suc hi)
  then have "filter is_navigator_call (expected_calls E k 0 hi) = map CallNavigator [0..<hi]"
    by simp
  moreover have "iteration_continues E k hi" using Suc.prems by simp
  ultimately show ?case
    by (simp add: expected_calls_def filter_iteration_calls)
qed

lemma filter_iteration_calls_le:
  "length (filter is_navigator_call (iteration_calls E k s nd)) \<le> 1"
  by (simp add: iteration_calls_def)

lemma filter_expected_calls_le:
  "length (filter is_navigator_call (expected_calls E k 0 hi)) \<le> hi"
proof (induction hi)
  case 0
  show ?case by (simp add: expected_calls_def)
next
  case (Suc hi)
  have "length (filter is_navigator_call (expected_calls E k 0 (Suc hi))) =
        length (filter is_navigator_call (expected_calls E k 0 hi)) +
        length (filter is_navigator_call (iteration_calls E k hi (prior_navigator_done E hi)))"
    by (simp add: expected_calls_def)
  with Suc filter_iteration_calls_le [of E k hi "prior_navigator_done E hi"] show ?case
    by linarith
qed

text \<open>
  Claim C3, as stated, fails: a task whose Planner never reports \<^verbatim>\<open>done\<close> and that is
  stopped before its second iteration leaves the loop by the \<^verbatim>\<open>break\<close> of line 114 after
  one Navigator run, with \<^verbatim>\<open>maxSteps = 3\<close>, and ends \<^verbatim>\<open>Cancelled\<close>.
\<close>

theorem step_budget_counterexample:
  "loop_calls (example_executor_env (from_step 1) never never) 3 3 = [CallPlanner 0, CallNavigator 0] \<and>
   task_outcome (example_executor_env (from_step 1) never never) 3 3 = (Cancelled, TASK_CANCEL) \<and>
   \<not> (fst (task_outcome (example_executor_env (from_step 1) never never) 3 3) = Failed StepBudgetExceeded \<and>
      filter is_navigator_call (loop_calls (example_executor_env (from_step 1) never never) 3 3)
        = map CallNavigator [0..<3])"
  by (simp add: loop_eval)

text \<open>
  Claim C3, amended. For every \<^verbatim>\<open>maxSteps\<close>, a task that is never stopped, whose agent
  runs never throw and whose Planner never reports \<^verbatim>\<open>done\<close> leaves the loop by its
  condition with \<^verbatim>\<open>step = maxSteps\<close>, after exactly \<^verbatim>\<open>maxSteps\<close> Navigator runs, one per
  value of \<^verbatim>\<open>step\<close> in order, and ends \<^verbatim>\<open>Failed\<close> with \<^verbatim>\<open>StepBudgetExceeded\<close> and a
  \<^verbatim>\<open>TASK_FAIL\<close> event. Whatever the surroundings, the loop ends (\<open>step_loop\<close> is total,
  by the measure \<open>maxSteps - step\<close>) with at most \<^verbatim>\<open>maxSteps\<close> Navigator runs.
\<close>

theorem step_budget:
  assumes "checkTaskCompletion E = checkTaskCompletion_spec"
    and "\<forall>s<maxSteps. \<not> shouldStop E s"
    and "\<forall>s<maxSteps. \<exists>out. runPlanner E s = Inr out \<and> \<not> checkTaskCompletion_spec out"
    and "\<forall>s<maxSteps. \<exists>d. navigate E s = Inr d"
  shows "fst (run_loop E maxSteps planningInterval) = Exhausted \<and>
         fst (snd (run_loop E maxSteps planningInterval)) = maxSteps \<and>
         filter is_navigator_call (loop_calls E maxSteps planningInterval) = map CallNavigator [0..<maxSteps] \<and>
         task_outcome E maxSteps planningInterval = (Failed StepBudgetExceeded, TASK_FAIL) \<and>
         (\<forall>E'. length (filter is_navigator_call (loop_calls E' maxSteps planningInterval)) \<le> maxSteps)"
proof -
  have co: "\<forall>s<maxSteps. iteration_continues E planningInterval s"
    using assms
    by (auto simp: iteration_continues_def planner_lets_on_def navigator_returns_def
        split: sum.splits)
  obtain x sf v' where r: "run_loop E maxSteps planningInterval = (x, sf, v')"
    by (cases "run_loop E maxSteps planningInterval") auto
  note t = run_loop_trace [OF r]
  have sf: "sf = maxSteps"
  proof (rule ccontr)
    assume "sf \<noteq> maxSteps"
    with t(1) have "sf < maxSteps" by simp
    with t(5) co show False by simp
  qed
  with t(2) have x: "x = Exhausted" by simp
  have c: "calls v' = expected_calls E planningInterval 0 maxSteps"
    using t(4) sf by simp
  have bound: "length (filter is_navigator_call (loop_calls E' maxSteps planningInterval)) \<le> maxSteps" for E'
  proof -
    obtain x' sf' w' where r': "run_loop E' maxSteps planningInterval = (x', sf', w')"
      by (cases "run_loop E' maxSteps planningInterval") auto
    note t' = run_loop_trace [OF r']
    have "length (filter is_navigator_call (calls w')) \<le> min maxSteps (Suc sf')"
      unfolding t'(4) by (rule filter_expected_calls_le)
    then show ?thesis using r' by (simp add: loop_calls_def)
  qed
  show ?thesis
    using r x sf c filter_expected_calls [OF co] bound
    by (simp add: loop_calls_def task_outcome_def)
qed

theorem step_budget_witness:
  "task_outcome (example_executor_env never never never) 3 3 = (Failed StepBudgetExceeded, TASK_FAIL) \<and>
   filter is_navigator_call (loop_calls (example_executor_env never never never) 3 3)
     = [CallNavigator 0, CallNavigator 1, CallNavigator 2]"
proof -
  let ?E = "example_executor_env never never never"
  have h1: "checkTaskCompletion ?E = checkTaskCompletion_spec"
    by (simp add: example_executor_env_def)
  have h2: "\<forall>s<3. \<not> shouldStop ?E s"
    by (simp add: example_executor_env_def never_def)
  have h3: "\<forall>s<3. \<exists>out. runPlanner ?E s = Inr out \<and> \<not> checkTaskCompletion_spec out"
    by (simp add: example_executor_env_def never_def checkTaskCompletion_spec_def example_plan_def)
  have h4: "\<forall>s<3. \<exists>d. navigate ?E s = Inr d"
    by (simp add: example_executor_env_def)
  have u: "map CallNavigator [0..<3] = [CallNavigator 0, CallNavigator 1, CallNavigator 2]"
    by (simp add: upt_rec)
  from step_budget [OF h1 h2 h3 h4, of 3] u show ?thesis by simp
qed

subsection \<open>Successful completion\<close>

lemma iteration_PlannerComplete:
  assumes "iteration E k s v = Break PlannerComplete v1"
  shows "\<exists>out. runPlanner E s = Inr out \<and> checkTaskCompletion E out \<and>
               latestPlanOutput v1 = Some out \<and> CallPlanner s \<in> set (calls v1)"
  using assms
  by (auto simp: iteration_def plan_phase_def navigate_phase_def Let_def
      split: if_splits sum.splits flow.splits)

lemma step_loop_PlannerComplete:
  "step_loop E N k s0 v = (PlannerComplete, sf, v') \<Longrightarrow>
   sf < N \<and> (\<exists>out. runPlanner E sf = Inr out \<and> checkTaskCompletion E out \<and>
                     latestPlanOutput v' = Some out \<and> CallPlanner sf \<in> set (calls v'))"
proof (induction E N k s0 v rule: step_loop.induct)
  case (1 E N k s0 v)
  show ?case
  proof (cases "s0 < N")
    case False
    with "1.prems" show ?thesis by (simp add: step_loop.simps)
  next
    case lt: True
    show ?thesis
    proof (cases "iteration E k s0 v")
      case (Break y v1)
      with lt "1.prems" have "y = PlannerComplete" "sf = s0" "v' = v1"
        by (simp_all add: step_loop.simps)
      with Break lt iteration_PlannerComplete [of E k s0 v v1] show ?thesis by simp
    next
      case (Continue v1)
      with lt "1.prems" have "step_loop E N k (Suc s0) v1 = (PlannerComplete, sf, v')"
        by (simp add: step_loop.simps)
      from "1.IH" [OF lt Continue this] show ?thesis .
    qed
  qed
qed

lemma on_fatal_not_success: "fst (on_fatal e) \<noteq> Completed \<and> snd (on_fatal e) \<noteq> TASK_OK"
  by (cases e) simp_all

lemma finish_Completed: "fst (finish x) = Completed \<longleftrightarrow> x = PlannerComplete"
  using on_fatal_not_success by (cases x) simp_all

lemma finish_TASK_OK: "snd (finish x) = TASK_OK \<longleftrightarrow> x = PlannerComplete"
  using on_fatal_not_success by (cases x) simp_all

text \<open>
  Claim C5. \<^verbatim>\<open>TASK_OK\<close> is emitted exactly when the task ends \<^verbatim>\<open>Completed\<close>, and a task
  that ends \<^verbatim>\<open>Completed\<close> ran the Planner at some step where its output has
  \<^verbatim>\<open>done = true\<close>. So when the Planner never reports \<^verbatim>\<open>done\<close>, the task does not end
  \<^verbatim>\<open>Completed\<close>, whatever the Navigator returns: a Navigator \<^verbatim>\<open>done\<close> only opens the
  planning gate of the next iteration.
\<close>

theorem completion_only_by_planner:
  assumes "checkTaskCompletion E = checkTaskCompletion_spec"
  shows "(snd (task_outcome E maxSteps planningInterval) = TASK_OK \<longleftrightarrow>
            fst (task_outcome E maxSteps planningInterval) = Completed) \<and>
         (fst (task_outcome E maxSteps planningInterval) = Completed \<longrightarrow>
            (\<exists>s out r. s < maxSteps \<and> CallPlanner s \<in> set (loop_calls E maxSteps planningInterval) \<and>
                        runPlanner E s = Inr out \<and> result out = Some r \<and> done r)) \<and>
         ((\<forall>s<maxSteps. \<forall>out r. runPlanner E s = Inr out \<and> result out = Some r \<longrightarrow> \<not> done r) \<longrightarrow>
            fst (task_outcome E maxSteps planningInterval) \<noteq> Completed)"
proof -
  obtain x sf v' where r: "run_loop E maxSteps planningInterval = (x, sf, v')"
    by (cases "run_loop E maxSteps planningInterval") auto
  have a: "snd (task_outcome E maxSteps planningInterval) = TASK_OK \<longleftrightarrow>
            fst (task_outcome E maxSteps planningInterval) = Completed"
    by (simp add: task_outcome_def finish_Completed finish_TASK_OK)
  have b: "\<exists>s out r. s < maxSteps \<and> CallPlanner s \<in> set (loop_calls E maxSteps planningInterval) \<and>
                        runPlanner E s = Inr out \<and> result out = Some r \<and> done r"
    if "fst (task_outcome E maxSteps planningInterval) = Completed"
  proof -
    from that r have "x = PlannerComplete" by (simp add: task_outcome_def finish_Completed)
    with r have "step_loop E maxSteps planningInterval 0 loop_init = (PlannerComplete, sf, v')"
      by (simp add: run_loop_def)
    from step_loop_PlannerComplete [OF this] obtain out where
      o: "sf < maxSteps" "runPlanner E sf = Inr out" "checkTaskCompletion E out"
         "CallPlanner sf \<in> set (calls v')"
      by blast
    from o(3) assms obtain p where "result out = Some p" "done p"
      by (auto simp: checkTaskCompletion_spec_def split: option.splits)
    with o r show ?thesis by (auto simp: loop_calls_def)
  qed
  from a b show ?thesis by blast
qed

theorem completion_only_by_planner_witness:
  "task_outcome (example_executor_env never (from_step 1) always) 10 5 = (Completed, TASK_OK) \<and>
   loop_calls (example_executor_env never (from_step 1) always) 10 5
     = [CallPlanner 0, CallNavigator 0, CallPlanner 1] \<and>
   fst (task_outcome (example_executor_env never never always) 2 5) \<noteq> Completed \<and>
   loop_calls (example_executor_env never never always) 2 5
     = [CallPlanner 0, CallNavigator 0, CallPlanner 1, CallNavigator 1]"
proof -
  let ?E1 = "example_executor_env never (from_step 1) always"
  let ?E2 = "example_executor_env never never always"
  have c1: "checkTaskCompletion ?E1 = checkTaskCompletion_spec"
    and c2: "checkTaskCompletion ?E2 = checkTaskCompletion_spec"
    by (simp_all add: example_executor_env_def)
  have f1: "fst (task_outcome ?E1 10 5) = Completed"
    by (simp add: loop_eval)
  have l1: "loop_calls ?E1 10 5 = [CallPlanner 0, CallNavigator 0, CallPlanner 1]"
    by (simp add: loop_eval)
  have l2: "loop_calls ?E2 2 5 = [CallPlanner 0, CallNavigator 0, CallPlanner 1, CallNavigator 1]"
    by (simp add: loop_eval)
  have nd: "\<forall>s<2. \<forall>out r. runPlanner ?E2 s = Inr out \<and> result out = Some r \<longrightarrow> \<not> done r"
    by (auto simp: example_executor_env_def never_def example_plan_def)
  from completion_only_by_planner [OF c1, of 10 5] f1
  have "task_outcome ?E1 10 5 = (Completed, TASK_OK)"
    by (simp add: prod_eq_iff)
  moreover from completion_only_by_planner [OF c2, of 2 5] nd
  have "fst (task_outcome ?E2 2 5) \<noteq> Completed" by blast
  ultimately show ?thesis using l1 l2 by simp
qed

end
